theory Spec2Isabelle
  imports Complex_Main "HOL-Library.Sublist"
begin

section \<open>The simulation state of game.js\<close>

text \<open>
  The simulation layer of \<^verbatim>\<open>src/game.js\<close> is embedded with explicit state passing. JavaScript
  numbers are values of type \<^typ>\<open>real\<close> (the counters \<^verbatim>\<open>score\<close>, \<^verbatim>\<open>wave\<close>, \<^verbatim>\<open>combo\<close> and
  \<^verbatim>\<open>enemiesPerWave\<close>, which only ever hold integers, of type \<^typ>\<open>int\<close>). The rounding of IEEE
  doubles is written out, with the function \<open>dbl\<close> below, where a timer is counted down
  against a threshold that it can meet exactly: the shot cooldown (\<^verbatim>\<open>currentTime / 1000\<close>,
  \<^verbatim>\<open>now - lastShotTime\<close>, the literal \<^verbatim>\<open>0.15\<close>) and the timers of \<^verbatim>\<open>Player.update\<close>
  (\<^verbatim>\<open>dashCooldown -= dt\<close>, \<^verbatim>\<open>dashTimer -= dt\<close>, \<^verbatim>\<open>invulnerable -= dt\<close>, the literals \<^verbatim>\<open>0.2\<close> and
  \<^verbatim>\<open>0.7\<close>). All other arithmetic is that of the real numbers. Canvas drawing only reads the
  state and is left out, together with the frame-rate figures \<^verbatim>\<open>fps\<close> and \<^verbatim>\<open>fpsTimer\<close> that
  only the debug overlay reads.

  Field names carry a prefix where two classes of the source use the same name:
  \<open>p_\<close> for Player, \<open>b_\<close> for Bullet, \<open>e_\<close> for Enemy, \<open>pt_\<close> for Particle, \<open>g_\<close> for an entry of
  \<^verbatim>\<open>ghostAfterimages\<close>, \<open>c_\<close> for a sound cue.
\<close>

datatype GameState = Playing | Paused | GameOver

record Ghost =
  g_x :: real
  g_y :: real
  g_angle :: real
  g_alpha :: real
  g_age :: real

record Player =
  p_x :: real
  p_y :: real
  p_radius :: real
  p_speed :: real
  p_angle :: real
  p_hp :: real
  maxHp :: real
  invulnerable :: real
  invulnerableTime :: real
  dashActive :: bool
  dashTimer :: real
  dashDuration :: real
  dashCooldown :: real
  dashCooldownTime :: real
  dashSpeed :: real
  dashDirection_x :: real
  dashDirection_y :: real
  ghostAfterimages :: "Ghost list"
  recoilOffset :: real

record Bullet =
  b_x :: real
  b_y :: real
  b_prevX :: real
  b_prevY :: real
  b_angle :: real
  b_speed :: real
  b_radius :: real
  b_lifetime :: real
  b_age :: real

record Enemy =
  e_x :: real
  e_y :: real
  e_radius :: real
  e_speed :: real
  e_hp :: real
  e_hitFlash :: real

record Particle =
  pt_x :: real
  pt_y :: real
  pt_vx :: real
  pt_vy :: real
  pt_lifetime :: real
  pt_age :: real
  pt_size :: real
  pt_hue :: real
  pt_light :: real

text \<open>
  A call of \<^verbatim>\<open>playSound\<close> that reaches the oscillator is recorded as a cue; the Web Audio
  calls themselves are outside the program.
\<close>

record Cue =
  c_pitch :: real
  c_duration :: real
  c_type :: string
  c_volume :: real

text \<open>
  The variables of the closure. \<open>audio\<close> tells whether \<^verbatim>\<open>audioContext\<close> was created;
  \<open>seed\<close> counts the calls of \<^verbatim>\<open>Math.random()\<close> made so far, and \<open>sounds\<close> lists the cues
  played so far. \<^verbatim>\<open>screenShake\<close> is the pair \<open>screenShake_x\<close>, \<open>screenShake_y\<close>.
\<close>

record Game =
  gameState :: GameState
  paused :: bool
  muted :: bool
  debug :: bool
  audio :: bool
  score :: int
  wave :: int
  screenShake_x :: real
  screenShake_y :: real
  hitstop :: real
  combo :: int
  comboTimer :: real
  player :: Player
  bullets :: "Bullet list"
  enemies :: "Enemy list"
  particles :: "Particle list"
  lastShotTime :: real
  enemySpawnTimer :: real
  enemySpawnRate :: real
  enemiesPerWave :: int
  waveBannerTime :: real
  lastTime :: real
  seed :: nat
  sounds :: "Cue list"

text \<open>
  The input state that the event handlers keep (\<^verbatim>\<open>keys\<close>, \<^verbatim>\<open>mouse\<close>), the logical canvas
  size \<^verbatim>\<open>canvas.width / dpr\<close>, \<^verbatim>\<open>canvas.height / dpr\<close>, and the time stamp handed to
  \<^verbatim>\<open>gameLoop\<close>, as one snapshot per tick.
\<close>

record Input =
  keys :: "string \<Rightarrow> bool"
  mouse_down :: bool
  mouse_worldX :: real
  mouse_worldY :: real
  canvasW :: real
  canvasH :: real
  currentTime :: real

text \<open>
  The double nearest to a real number. A double other than 0 is \<open>m * 2 ^ e\<close> with an integer
  \<open>m\<close> of 53 bits, \<open>2 ^ 52 \<le> \<bar>m\<bar> < 2 ^ 53\<close>; to round \<open>x\<close>, scale it by the power of two that
  brings \<open>\<bar>x\<bar>\<close> into that range and round to the nearest integer, a tie to the even one
  (\<open>roundEven\<close>). The result of a JavaScript operation \<^verbatim>\<open>a - b\<close> or \<^verbatim>\<open>a / b\<close> on doubles is
  \<open>dbl\<close> of the exact result, and a decimal literal denotes \<open>dbl\<close> of its value. The exponent
  is not bounded here: overflow and subnormal numbers, which no timer of the program comes
  near, are left out.
\<close>

definition roundEven :: "real \<Rightarrow> int" where
  "roundEven x =
     (let f = \<lfloor>x\<rfloor>; r = x - of_int f
      in if r < 1 / 2 then f
         else if r > 1 / 2 then f + 1
         else if even f then f else f + 1)"

definition dbl :: "real \<Rightarrow> real" where
  "dbl x =
     (if x = 0 then 0
      else let e = \<lfloor>log 2 \<bar>x\<bar>\<rfloor> - 52
           in sgn x * (of_int (roundEven (\<bar>x\<bar> / 2 powr of_int e)) * 2 powr of_int e))"

text \<open>Variables declared with \<^verbatim>\<open>let\<close> that no statement ever assigns.\<close>

definition shakeDecay :: real where
  "shakeDecay = 0.92"

definition comboResetTime :: real where
  "comboResetTime = 2"

definition shootCooldown :: real where
  "shootCooldown = dbl 0.15"

definition waveBannerDuration :: real where
  "waveBannerDuration = 2"

section \<open>Helpers: array splice, sound, shake, particles\<close>

text \<open>\<^verbatim>\<open>xs.splice(i, 1)\<close>: the array without its element at index \<open>i\<close>.\<close>

definition splice1 :: "nat \<Rightarrow> 'a list \<Rightarrow> 'a list" where
  "splice1 i xs = take i xs @ drop (Suc i) xs"

text \<open>
  \<^verbatim>\<open>Math.random()\<close> is an oracle \<open>rand\<close>: the \<open>n\<close>-th call made by the program returns
  \<open>rand n\<close>.
\<close>

definition playSound :: "(nat \<Rightarrow> real) \<Rightarrow> real \<Rightarrow> real \<Rightarrow> string \<Rightarrow> real \<Rightarrow> real \<Rightarrow> Game \<Rightarrow> Game" where
  "playSound rand frequency duration type volume pitchVariation st =
     (if muted st \<or> \<not> audio st then st
      else if pitchVariation > 0 then
        st\<lparr>seed := Suc (seed st),
           sounds := sounds st @
             [\<lparr>c_pitch = frequency + (rand (seed st) - 0.5) * pitchVariation,
               c_duration = duration, c_type = type, c_volume = volume\<rparr>]\<rparr>
      else
        st\<lparr>sounds := sounds st @
             [\<lparr>c_pitch = frequency, c_duration = duration, c_type = type, c_volume = volume\<rparr>]\<rparr>)"

definition addShake :: "(nat \<Rightarrow> real) \<Rightarrow> real \<Rightarrow> Game \<Rightarrow> Game" where
  "addShake rand intensity st =
     st\<lparr>screenShake_x := screenShake_x st + (rand (seed st) - 0.5) * intensity * 2,
        screenShake_y := screenShake_y st + (rand (Suc (seed st)) - 0.5) * intensity * 2,
        seed := seed st + 2\<rparr>"

text \<open>The Particle constructor draws five random numbers: vx, vy, size, and two for the colour.\<close>

definition Particle_new :: "(nat \<Rightarrow> real) \<Rightarrow> nat \<Rightarrow> real \<Rightarrow> real \<Rightarrow> Particle" where
  "Particle_new rand s x y =
     \<lparr>pt_x = x, pt_y = y,
      pt_vx = (rand s - 0.5) * 200,
      pt_vy = (rand (s + 1) - 0.5) * 200,
      pt_lifetime = 0.5, pt_age = 0,
      pt_size = 2 + rand (s + 2) * 3,
      pt_hue = rand (s + 3) * 60,
      pt_light = 50 + rand (s + 4) * 50\<rparr>"

fun spawnParticles :: "(nat \<Rightarrow> real) \<Rightarrow> real \<Rightarrow> real \<Rightarrow> nat \<Rightarrow> Game \<Rightarrow> Game" where
  "spawnParticles rand x y 0 st = st"
| "spawnParticles rand x y (Suc n) st =
     spawnParticles rand x y n
       (st\<lparr>particles := particles st @ [Particle_new rand (seed st) x y],
           seed := seed st + 5\<rparr>)"

section \<open>Player\<close>

definition Player_new :: "real \<Rightarrow> real \<Rightarrow> Player" where
  "Player_new cw ch =
     \<lparr>p_x = cw / 2, p_y = ch / 2, p_radius = 15, p_speed = 300, p_angle = 0,
      p_hp = 100, maxHp = 100, invulnerable = 0, invulnerableTime = dbl 0.7,
      dashActive = False, dashTimer = 0, dashDuration = dbl 0.2, dashCooldown = 0,
      dashCooldownTime = 2, dashSpeed = 3, dashDirection_x = 0, dashDirection_y = 0,
      ghostAfterimages = [], recoilOffset = 0\<rparr>"

text \<open>\<^verbatim>\<open>takeDamage(amount)\<close> returns whether the player was killed, and the new state.\<close>

definition takeDamage :: "(nat \<Rightarrow> real) \<Rightarrow> real \<Rightarrow> Game \<Rightarrow> bool \<times> Game" where
  "takeDamage rand amount st =
     (if invulnerable (player st) > 0 \<or> dashActive (player st) then (False, st)
      else
        let st1 = st\<lparr>player := (player st)\<lparr>p_hp := p_hp (player st) - amount,
                                            invulnerable := invulnerableTime (player st)\<rparr>\<rparr>;
            st2 = addShake rand 6 st1;
            st3 = st2\<lparr>hitstop := 0.03\<rparr>;
            st4 = playSound rand 150 0.08 ''square'' 0.4 0 st3
        in if p_hp (player st4) \<le> 0 then
             (True, playSound rand 80 0.4 ''sawtooth'' 0.5 0 (st4\<lparr>player := (player st4)\<lparr>p_hp := 0\<rparr>\<rparr>))
           else (False, st4))"

text \<open>
  Division. In the source a division by zero raises nothing: it yields an infinity or NaN that
  then spreads through the positions. The model makes it a fault, \<open>None\<close>, so that a function
  returning \<open>Some\<close> has divided by no zero.
\<close>

definition checked_div :: "real \<Rightarrow> real \<Rightarrow> real option" where
  "checked_div a b = (if b = 0 then None else Some (a / b))"

text \<open>\<^verbatim>\<open>len = Math.sqrt(dx * dx + dy * dy)\<close> followed by \<^verbatim>\<open>dx / len\<close>, \<^verbatim>\<open>dy / len\<close>.\<close>

definition normalize :: "real \<Rightarrow> real \<Rightarrow> (real \<times> real) option" where
  "normalize dx dy =
     (let len = sqrt (dx * dx + dy * dy)
      in case checked_div dx len of
           None \<Rightarrow> None
         | Some ux \<Rightarrow> (case checked_div dy len of None \<Rightarrow> None | Some uy \<Rightarrow> Some (ux, uy)))"

text \<open>The combined WASD/arrow vector, computed alike for the dash and for normal movement.\<close>

definition moveKeys :: "Input \<Rightarrow> real \<times> real" where
  "moveKeys inp =
     (let dy0 = (if keys inp ''w'' \<or> keys inp ''arrowup'' then 0 - 1 else 0);
          dy = (if keys inp ''s'' \<or> keys inp ''arrowdown'' then dy0 + 1 else dy0);
          dx0 = (if keys inp ''a'' \<or> keys inp ''arrowleft'' then 0 - 1 else 0);
          dx = (if keys inp ''d'' \<or> keys inp ''arrowright'' then dx0 + 1 else dx0)
      in (dx, dy))"

text \<open>\<^verbatim>\<open>Math.atan2(y, x)\<close>, the angle of the point \<open>(x, y)\<close> in \<open>(-\<pi>, \<pi>]\<close>.\<close>

definition atan2 :: "real \<Rightarrow> real \<Rightarrow> real" where
  "atan2 y x =
     (if x > 0 then arctan (y / x)
      else if x < 0 \<and> y \<ge> 0 then arctan (y / x) + pi
      else if x < 0 then arctan (y / x) - pi
      else if y > 0 then pi / 2
      else if y < 0 then - pi / 2
      else 0)"

text \<open>The blocks of \<^verbatim>\<open>Player.update(dt)\<close>, named after their comments in the source.\<close>

definition updateDashCooldown :: "real \<Rightarrow> Player \<Rightarrow> Player" where
  "updateDashCooldown dt p =
     (if dashCooldown p > 0 then p\<lparr>dashCooldown := dbl (dashCooldown p - dt)\<rparr> else p)"

definition dashActivation :: "(nat \<Rightarrow> real) \<Rightarrow> Input \<Rightarrow> Game \<Rightarrow> Game option" where
  "dashActivation rand inp st =
     (let p = player st
      in if (keys inp ''shift'' \<or> keys inp ''shiftleft'' \<or> keys inp ''shiftright'')
            \<and> \<not> dashActive p \<and> dashCooldown p \<le> 0
         then
           (case (let (dx, dy) = moveKeys inp
                  in if dx \<noteq> 0 \<or> dy \<noteq> 0 then normalize dx dy
                     else Some (cos (p_angle p), sin (p_angle p))) of
              None \<Rightarrow> None
            | Some (ddx, ddy) \<Rightarrow>
                let st1 = st\<lparr>player := p\<lparr>dashDirection_x := ddx, dashDirection_y := ddy,
                                          dashActive := True,
                                          dashTimer := dashDuration p,
                                          dashCooldown := dashCooldownTime p,
                                          invulnerable := dashDuration p\<rparr>\<rparr>;
                    st2 = spawnParticles rand (p_x p) (p_y p) 8 st1;
                    st3 = addShake rand 3 st2
                in Some (playSound rand 400 0.2 ''sawtooth'' 0.25 100 st3))
         else Some st)"

text \<open>The callback that fades one afterimage; the filter keeps those with \<^verbatim>\<open>alpha > 0\<close>.\<close>

definition fadeGhost :: "real \<Rightarrow> Ghost \<Rightarrow> Ghost" where
  "fadeGhost dt g = g\<lparr>g_age := g_age g + dt, g_alpha := g_alpha g - dt * 2\<rparr>"

definition fadeGhosts :: "real \<Rightarrow> Ghost list \<Rightarrow> Ghost list" where
  "fadeGhosts dt gs = filter (\<lambda>g. g_alpha g > 0) (map (fadeGhost dt) gs)"

definition dashMovement :: "real \<Rightarrow> Player \<Rightarrow> Player" where
  "dashMovement dt p =
     (if dashActive p then
        let p1 = p\<lparr>dashTimer := dbl (dashTimer p - dt)\<rparr>;
            gs = ghostAfterimages p1 @
                   [\<lparr>g_x = p_x p1, g_y = p_y p1, g_angle = p_angle p1, g_alpha = 0.6, g_age = 0\<rparr>];
            p2 = p1\<lparr>ghostAfterimages := (if length gs > 5 then tl gs else gs)\<rparr>
        in if dashTimer p2 \<le> 0 then p2\<lparr>dashActive := False\<rparr>
           else p2\<lparr>p_x := p_x p2 + dashDirection_x p2 * p_speed p2 * dashSpeed p2 * dt,
                   p_y := p_y p2 + dashDirection_y p2 * p_speed p2 * dashSpeed p2 * dt\<rparr>
      else p\<lparr>ghostAfterimages := fadeGhosts dt (ghostAfterimages p)\<rparr>)"

definition updateRecoil :: "real \<Rightarrow> Player \<Rightarrow> Player" where
  "updateRecoil dt p =
     (if recoilOffset p > 0 then
        let r = recoilOffset p - dt * 20
        in p\<lparr>recoilOffset := (if r < 0 then 0 else r)\<rparr>
      else p)"

definition normalMovement :: "Input \<Rightarrow> real \<Rightarrow> Player \<Rightarrow> Player option" where
  "normalMovement inp dt p =
     (if \<not> dashActive p then
        let (dx, dy) = moveKeys inp
        in if dx \<noteq> 0 \<or> dy \<noteq> 0 then
             (case normalize dx dy of
                None \<Rightarrow> None
              | Some (ux, uy) \<Rightarrow>
                  Some (p\<lparr>p_x := p_x p + ux * p_speed p * dt,
                         p_y := p_y p + uy * p_speed p * dt\<rparr>))
           else Some p
      else Some p)"

definition keepInBounds :: "Input \<Rightarrow> Player \<Rightarrow> Player" where
  "keepInBounds inp p =
     (let margin = p_radius p
      in p\<lparr>p_x := max margin (min (canvasW inp - margin) (p_x p)),
           p_y := max margin (min (canvasH inp - margin) (p_y p))\<rparr>)"

definition aimAtMouse :: "Input \<Rightarrow> Player \<Rightarrow> Player" where
  "aimAtMouse inp p =
     p\<lparr>p_angle := atan2 (mouse_worldY inp - p_y p) (mouse_worldX inp - p_x p)\<rparr>"

definition updateInvulnerability :: "real \<Rightarrow> Player \<Rightarrow> Player" where
  "updateInvulnerability dt p =
     (if invulnerable p > 0 \<and> \<not> dashActive p
      then p\<lparr>invulnerable := dbl (invulnerable p - dt)\<rparr>
      else p)"

text \<open>
  \<^verbatim>\<open>Player.update(dt)\<close>. The dash activation spawns particles, shakes the screen and plays a
  sound, so the whole game state is passed.
\<close>

definition Player_update :: "(nat \<Rightarrow> real) \<Rightarrow> Input \<Rightarrow> real \<Rightarrow> Game \<Rightarrow> Game option" where
  "Player_update rand inp dt st =
     (case dashActivation rand inp (st\<lparr>player := updateDashCooldown dt (player st)\<rparr>) of
        None \<Rightarrow> None
      | Some st1 \<Rightarrow>
          (case normalMovement inp dt (updateRecoil dt (dashMovement dt (player st1))) of
             None \<Rightarrow> None
           | Some p \<Rightarrow>
               Some (st1\<lparr>player :=
                          updateInvulnerability dt (aimAtMouse inp (keepInBounds inp p))\<rparr>)))"

section \<open>Bullet, Enemy, Particle\<close>

definition Bullet_new :: "real \<Rightarrow> real \<Rightarrow> real \<Rightarrow> Bullet" where
  "Bullet_new x y angle =
     \<lparr>b_x = x, b_y = y, b_prevX = x, b_prevY = y, b_angle = angle, b_speed = 600,
      b_radius = 4, b_lifetime = 2, b_age = 0\<rparr>"

definition Bullet_update :: "real \<Rightarrow> Bullet \<Rightarrow> Bullet" where
  "Bullet_update dt b =
     b\<lparr>b_prevX := b_x b, b_prevY := b_y b,
       b_x := b_x b + cos (b_angle b) * b_speed b * dt,
       b_y := b_y b + sin (b_angle b) * b_speed b * dt,
       b_age := b_age b + dt\<rparr>"

definition isOffscreen :: "Input \<Rightarrow> Bullet \<Rightarrow> bool" where
  "isOffscreen inp b =
     (let margin = 50
      in b_x b < - margin \<or> b_x b > canvasW inp + margin \<or>
         b_y b < - margin \<or> b_y b > canvasH inp + margin \<or>
         b_age b \<ge> b_lifetime b)"

text \<open>
  The Enemy constructor draws four random numbers: the side, the position along that side,
  the radius and the speed.
\<close>

definition Enemy_new :: "(nat \<Rightarrow> real) \<Rightarrow> nat \<Rightarrow> Input \<Rightarrow> Enemy" where
  "Enemy_new rand s inp =
     (let side = \<lfloor>rand s * 4\<rfloor>;
          margin = 50;
          (x, y) =
            (if side = 0 then (- margin, rand (s + 1) * canvasH inp)
             else if side = 1 then (canvasW inp + margin, rand (s + 1) * canvasH inp)
             else if side = 2 then (rand (s + 1) * canvasW inp, - margin)
             else (rand (s + 1) * canvasW inp, canvasH inp + margin))
      in \<lparr>e_x = x, e_y = y,
          e_radius = 12 + rand (s + 2) * 8,
          e_speed = 80 + rand (s + 3) * 40,
          e_hp = 1, e_hitFlash = 0\<rparr>)"

definition spawnEnemy :: "(nat \<Rightarrow> real) \<Rightarrow> Input \<Rightarrow> Game \<Rightarrow> Game" where
  "spawnEnemy rand inp st =
     st\<lparr>enemies := enemies st @ [Enemy_new rand (seed st) inp], seed := seed st + 4\<rparr>"

text \<open>\<^verbatim>\<open>Enemy.update(dt)\<close> reads the position of the global \<^verbatim>\<open>player\<close>, here \<open>pl\<close>.\<close>

definition Enemy_update :: "real \<Rightarrow> Player \<Rightarrow> Enemy \<Rightarrow> Enemy option" where
  "Enemy_update dt pl e =
     (let e1 = (if e_hitFlash e > 0 then e\<lparr>e_hitFlash := e_hitFlash e - dt\<rparr> else e);
          dx = p_x pl - e_x e1;
          dy = p_y pl - e_y e1;
          dist = sqrt (dx * dx + dy * dy)
      in if dist > 0 then
           (case checked_div dx dist of
              None \<Rightarrow> None
            | Some ux \<Rightarrow>
                (case checked_div dy dist of
                   None \<Rightarrow> None
                 | Some uy \<Rightarrow>
                     Some (e1\<lparr>e_x := e_x e1 + ux * e_speed e1 * dt,
                             e_y := e_y e1 + uy * e_speed e1 * dt\<rparr>)))
         else Some e1)"

text \<open>\<^verbatim>\<open>enemies.forEach(enemy => enemy.update(dt))\<close>: a fault in one update is a fault of the pass.\<close>

fun updateEnemies :: "real \<Rightarrow> Player \<Rightarrow> Enemy list \<Rightarrow> Enemy list option" where
  "updateEnemies dt pl [] = Some []"
| "updateEnemies dt pl (e # es) =
     (case Enemy_update dt pl e of
        None \<Rightarrow> None
      | Some e' \<Rightarrow> (case updateEnemies dt pl es of None \<Rightarrow> None | Some es' \<Rightarrow> Some (e' # es')))"

definition Particle_update :: "real \<Rightarrow> Particle \<Rightarrow> Particle" where
  "Particle_update dt q =
     q\<lparr>pt_x := pt_x q + pt_vx q * dt, pt_y := pt_y q + pt_vy q * dt,
       pt_vx := pt_vx q * 0.95, pt_vy := pt_vy q * 0.95,
       pt_age := pt_age q + dt\<rparr>"

definition isDead :: "Particle \<Rightarrow> bool" where
  "isDead q = (pt_age q \<ge> pt_lifetime q)"

section \<open>checkCollisions\<close>

text \<open>The overlap test of the first pass: centre distance below the sum of the radii.\<close>

definition overlaps :: "Bullet \<Rightarrow> Enemy \<Rightarrow> bool" where
  "overlaps bullet enemy =
     (let dx = b_x bullet - e_x enemy;
          dy = b_y bullet - e_y enemy;
          dist = sqrt (dx * dx + dy * dy)
      in dist < b_radius bullet + e_radius enemy)"

text \<open>
  The body of the \<^verbatim>\<open>if\<close> in the first pass, for the bullet at index \<open>i\<close> and the enemy at
  index \<open>j\<close>, statement by statement. (The hit flash is set on an enemy that the next but one
  statement drops from the array.)
\<close>

definition bulletHit :: "(nat \<Rightarrow> real) \<Rightarrow> nat \<Rightarrow> nat \<Rightarrow> Game \<Rightarrow> Game" where
  "bulletHit rand i j st =
     (let enemy = enemies st ! j;
          st1 = st\<lparr>enemies := (enemies st)[j := enemy\<lparr>e_hitFlash := 0.1\<rparr>]\<rparr>;
          st2 = spawnParticles rand (e_x enemy) (e_y enemy) 15 st1;
          st3 = st2\<lparr>enemies := splice1 j (enemies st2)\<rparr>;
          st4 = st3\<lparr>bullets := splice1 i (bullets st3)\<rparr>;
          st5 = st4\<lparr>combo := combo st4 + 1\<rparr>;
          st6 = st5\<lparr>comboTimer := comboResetTime\<rparr>;
          st7 = st6\<lparr>score := score st6 + 10 * combo st6\<rparr>;
          st8 = st7\<lparr>hitstop := 0.05\<rparr>;
          st9 = addShake rand 12 st8
      in playSound rand 200 0.15 ''sawtooth'' 0.3 30 st9)"

text \<open>
  The inner loop \<^verbatim>\<open>for (let j = enemies.length - 1; j >= 0; j--)\<close> with \<open>n\<close> indices still to
  visit: it tests index \<open>n - 1\<close> next, and a hit ends it (\<^verbatim>\<open>break\<close>).
\<close>

fun scanEnemies :: "(nat \<Rightarrow> real) \<Rightarrow> nat \<Rightarrow> nat \<Rightarrow> Game \<Rightarrow> Game" where
  "scanEnemies rand i 0 st = st"
| "scanEnemies rand i (Suc j) st =
     (if overlaps (bullets st ! i) (enemies st ! j) then bulletHit rand i j st
      else scanEnemies rand i j st)"

text \<open>The outer loop \<^verbatim>\<open>for (let i = bullets.length - 1; i >= 0; i--)\<close>, likewise.\<close>

fun bulletsVsEnemies_from :: "(nat \<Rightarrow> real) \<Rightarrow> nat \<Rightarrow> Game \<Rightarrow> Game" where
  "bulletsVsEnemies_from rand 0 st = st"
| "bulletsVsEnemies_from rand (Suc i) st =
     bulletsVsEnemies_from rand i (scanEnemies rand i (length (enemies st)) st)"

definition bulletsVsEnemies :: "(nat \<Rightarrow> real) \<Rightarrow> Game \<Rightarrow> Game" where
  "bulletsVsEnemies rand st = bulletsVsEnemies_from rand (length (bullets st)) st"

text \<open>The second pass.\<close>

definition touches :: "Enemy \<Rightarrow> Player \<Rightarrow> bool" where
  "touches enemy pl =
     (let dx = e_x enemy - p_x pl;
          dy = e_y enemy - p_y pl;
          dist = sqrt (dx * dx + dy * dy)
      in dist < e_radius enemy + p_radius pl)"

definition playerHit :: "(nat \<Rightarrow> real) \<Rightarrow> nat \<Rightarrow> Game \<Rightarrow> Game" where
  "playerHit rand i st =
     (let enemy = enemies st ! i;
          (died, st1) = takeDamage rand 10 st;
          st2 = (if died then
                   (spawnParticles rand (p_x (player st1)) (p_y (player st1)) 30 st1)
                     \<lparr>gameState := GameOver\<rparr>
                 else st1);
          st3 = spawnParticles rand (e_x enemy) (e_y enemy) 15 st2;
          st4 = st3\<lparr>enemies := splice1 i (enemies st3)\<rparr>;
          st5 = st4\<lparr>combo := 0, comboTimer := 0\<rparr>;
          st6 = st5\<lparr>score := score st5 + 10\<rparr>;
          st7 = addShake rand 8 st6;
          st8 = st7\<lparr>hitstop := 0.03\<rparr>
      in playSound rand 150 0.08 ''square'' 0.4 0 st8)"

fun enemiesVsPlayer_from :: "(nat \<Rightarrow> real) \<Rightarrow> nat \<Rightarrow> Game \<Rightarrow> Game" where
  "enemiesVsPlayer_from rand 0 st = st"
| "enemiesVsPlayer_from rand (Suc i) st =
     enemiesVsPlayer_from rand i
       (if touches (enemies st ! i) (player st) then playerHit rand i st else st)"

definition enemiesVsPlayer :: "(nat \<Rightarrow> real) \<Rightarrow> Game \<Rightarrow> Game" where
  "enemiesVsPlayer rand st = enemiesVsPlayer_from rand (length (enemies st)) st"

definition checkCollisions :: "(nat \<Rightarrow> real) \<Rightarrow> Game \<Rightarrow> Game" where
  "checkCollisions rand st = enemiesVsPlayer rand (bulletsVsEnemies rand st)"

section \<open>restart, the key handler and the initial state\<close>

definition restart :: "Input \<Rightarrow> Game \<Rightarrow> Game" where
  "restart inp st =
     st\<lparr>player := Player_new (canvasW inp) (canvasH inp),
        bullets := [], enemies := [], particles := [],
        score := 0, wave := 1,
        enemySpawnTimer := 0, enemiesPerWave := 5, waveBannerTime := 0,
        gameState := Playing, paused := False,
        screenShake_x := 0, screenShake_y := 0,
        hitstop := 0, combo := 0, comboTimer := 0, lastShotTime := 0\<rparr>"

text \<open>
  The part of the \<^verbatim>\<open>keydown\<close> handler that changes the game state, for the key \<^verbatim>\<open>e.key\<close>
  (its first line records the key in \<^verbatim>\<open>keys\<close>, which is part of the input snapshot here).
\<close>

definition keydown :: "string \<Rightarrow> Input \<Rightarrow> Game \<Rightarrow> Game" where
  "keydown key inp st =
     (let st1 = (if key = ''p'' \<or> key = ''P'' \<or> key = ''Escape'' then
                   st\<lparr>paused := \<not> paused st,
                      gameState := (if \<not> paused st then Paused else Playing)\<rparr>
                 else st);
          st2 = (if key = ''r'' \<or> key = ''R'' then restart inp st1 else st1);
          st3 = (if key = ''m'' \<or> key = ''M'' then st2\<lparr>muted := \<not> muted st2\<rparr> else st2)
      in if key = ''~'' \<or> key = ''`'' then st3\<lparr>debug := \<not> debug st3\<rparr> else st3)"

text \<open>
  The state when the script has run its top level: \<open>au\<close> tells whether the audio context
  could be created, \<open>t0\<close> is the value of \<^verbatim>\<open>performance.now()\<close> stored in \<^verbatim>\<open>lastTime\<close>.
\<close>

definition initGame :: "Input \<Rightarrow> bool \<Rightarrow> real \<Rightarrow> Game" where
  "initGame inp au t0 =
     \<lparr>gameState = Playing, paused = False, muted = False, debug = False, audio = au,
      score = 0, wave = 1, screenShake_x = 0, screenShake_y = 0, hitstop = 0,
      combo = 0, comboTimer = 0,
      player = Player_new (canvasW inp) (canvasH inp),
      bullets = [], enemies = [], particles = [],
      lastShotTime = 0, enemySpawnTimer = 0, enemySpawnRate = 2, enemiesPerWave = 5,
      waveBannerTime = 0, lastTime = t0, seed = 0, sounds = []\<rparr>"

section \<open>gameLoop\<close>

text \<open>The hit-stop branch of the tick, up to its early \<^verbatim>\<open>return\<close>.\<close>

definition hitstopTick :: "real \<Rightarrow> Game \<Rightarrow> Game" where
  "hitstopTick dt st =
     (let st1 = st\<lparr>hitstop := hitstop st - dt\<rparr>;
          st2 = st1\<lparr>screenShake_x := screenShake_x st1 * shakeDecay,
                    screenShake_y := screenShake_y st1 * shakeDecay\<rparr>;
          st3 = st2\<lparr>enemies :=
                      map (\<lambda>enemy. if e_hitFlash enemy > 0
                                    then enemy\<lparr>e_hitFlash := e_hitFlash enemy - dt\<rparr>
                                    else enemy) (enemies st2)\<rparr>;
          st4 = st3\<lparr>player := updateRecoil dt (player st3)\<rparr>
      in st4\<lparr>player := (player st4)\<lparr>ghostAfterimages :=
                                        fadeGhosts dt (ghostAfterimages (player st4))\<rparr>\<rparr>)"

text \<open>The steps of a normal tick, in the order of the source.\<close>

definition decayShake :: "Game \<Rightarrow> Game" where
  "decayShake st =
     st\<lparr>screenShake_x := screenShake_x st * shakeDecay,
        screenShake_y := screenShake_y st * shakeDecay\<rparr>"

definition updateComboTimer :: "real \<Rightarrow> Game \<Rightarrow> Game" where
  "updateComboTimer dt st =
     (if comboTimer st > 0 then
        let st1 = st\<lparr>comboTimer := comboTimer st - dt\<rparr>
        in if comboTimer st1 \<le> 0 then st1\<lparr>combo := 0\<rparr> else st1
      else st)"

definition shooting :: "(nat \<Rightarrow> real) \<Rightarrow> Input \<Rightarrow> Game \<Rightarrow> Game" where
  "shooting rand inp st =
     (let now = dbl (currentTime inp / 1000)
      in if (mouse_down inp \<or> keys inp '' '') \<and> dbl (now - lastShotTime st) \<ge> shootCooldown then
           let pl = player st;
               bulletX = p_x pl + cos (p_angle pl) * (p_radius pl + 5);
               bulletY = p_y pl + sin (p_angle pl) * (p_radius pl + 5);
               st1 = st\<lparr>bullets := bullets st @ [Bullet_new bulletX bulletY (p_angle pl)]\<rparr>;
               st2 = st1\<lparr>lastShotTime := now\<rparr>;
               st3 = st2\<lparr>player := (player st2)\<lparr>recoilOffset := 3\<rparr>\<rparr>
           in playSound rand 800 0.05 ''square'' 0.2 50 st3
         else st)"

definition updateBullets :: "Input \<Rightarrow> real \<Rightarrow> Game \<Rightarrow> Game" where
  "updateBullets inp dt st =
     st\<lparr>bullets := filter (\<lambda>b. \<not> isOffscreen inp b) (map (Bullet_update dt) (bullets st))\<rparr>"

definition spawning :: "(nat \<Rightarrow> real) \<Rightarrow> Input \<Rightarrow> real \<Rightarrow> Game \<Rightarrow> Game" where
  "spawning rand inp dt st =
     (let st1 = st\<lparr>enemySpawnTimer := enemySpawnTimer st - dt\<rparr>
      in if waveBannerTime st1 \<le> 0 \<and> enemySpawnTimer st1 \<le> 0
            \<and> int (length (enemies st1)) < enemiesPerWave st1
         then (spawnEnemy rand inp st1)\<lparr>enemySpawnTimer := enemySpawnRate st1\<rparr>
         else st1)"

definition updateParticles :: "real \<Rightarrow> Game \<Rightarrow> Game" where
  "updateParticles dt st =
     st\<lparr>particles := filter (\<lambda>q. \<not> isDead q) (map (Particle_update dt) (particles st))\<rparr>"

definition waveProgress :: "(nat \<Rightarrow> real) \<Rightarrow> real \<Rightarrow> Game \<Rightarrow> Game" where
  "waveProgress rand dt st =
     (if waveBannerTime st > 0 then st\<lparr>waveBannerTime := waveBannerTime st - dt\<rparr>
      else if length (enemies st) = 0 \<and> enemySpawnTimer st \<le> 0 then
        let st1 = st\<lparr>wave := wave st + 1\<rparr>;
            st2 = st1\<lparr>enemiesPerWave := 5 + wave st1 * 2\<rparr>;
            st3 = st2\<lparr>enemySpawnRate := max 0.5 (2 - real_of_int (wave st2) * 0.1)\<rparr>;
            st4 = st3\<lparr>waveBannerTime := waveBannerDuration\<rparr>
        in playSound rand 500 0.3 ''sine'' 0.5 0 st4
      else st)"

definition normalTick :: "(nat \<Rightarrow> real) \<Rightarrow> Input \<Rightarrow> real \<Rightarrow> Game \<Rightarrow> Game option" where
  "normalTick rand inp dt st =
     (case Player_update rand inp dt (updateComboTimer dt (decayShake st)) of
        None \<Rightarrow> None
      | Some st1 \<Rightarrow>
          let st2 = spawning rand inp dt (updateBullets inp dt (shooting rand inp st1))
          in (case updateEnemies dt (player st2) (enemies st2) of
                None \<Rightarrow> None
              | Some es \<Rightarrow>
                  Some (checkCollisions rand
                          (waveProgress rand dt (updateParticles dt (st2\<lparr>enemies := es\<rparr>))))))"

text \<open>
  One call of \<^verbatim>\<open>gameLoop(currentTime)\<close>, without the drawing. \<open>None\<close> is a tick that divided
  by zero.
\<close>

definition gameLoop :: "(nat \<Rightarrow> real) \<Rightarrow> Input \<Rightarrow> Game \<Rightarrow> Game option" where
  "gameLoop rand inp st =
     (let dt = min ((currentTime inp - lastTime st) / 1000) 0.033;
          st0 = st\<lparr>lastTime := currentTime inp\<rparr>
      in if gameState st0 = Playing \<and> \<not> paused st0 then
           if hitstop st0 > 0 then Some (hitstopTick dt st0)
           else normalTick rand inp dt st0
         else Some st0)"

text \<open>
  The states the program can be in: the initial one, and those that a tick or a key press
  produces from such a state, with any input, any time stamp and any random numbers.
\<close>

inductive reachable :: "(nat \<Rightarrow> real) \<Rightarrow> Game \<Rightarrow> bool" for rand :: "nat \<Rightarrow> real" where
  reach_init: "reachable rand (initGame inp au t0)"
| reach_tick: "reachable rand st \<Longrightarrow> gameLoop rand inp st = Some st' \<Longrightarrow> reachable rand st'"
| reach_key: "reachable rand st \<Longrightarrow> reachable rand (keydown key inp st)"

section \<open>Reference definitions for the comparison with the specification\<close>

text \<open>
  The first pass as the specification words it (sections 4.5 and 9): bullets are visited in
  insertion order, each against the enemies in insertion order; the first overlapping enemy
  is the hit, and the bullet and that enemy are removed. \<open>spec_hit\<close> is the effect of one
  recorded hit other than the two removals: particle burst at the enemy, combo, combo timer,
  score, hit-stop, shake and sound.
\<close>

definition spec_hit :: "(nat \<Rightarrow> real) \<Rightarrow> Enemy \<Rightarrow> Game \<Rightarrow> Game" where
  "spec_hit rand enemy st =
     (let st1 = spawnParticles rand (e_x enemy) (e_y enemy) 15 st;
          st2 = st1\<lparr>combo := combo st1 + 1\<rparr>;
          st3 = st2\<lparr>comboTimer := comboResetTime\<rparr>;
          st4 = st3\<lparr>score := score st3 + 10 * combo st3\<rparr>;
          st5 = st4\<lparr>hitstop := 0.05\<rparr>;
          st6 = addShake rand 12 st5
      in playSound rand 200 0.15 ''sawtooth'' 0.3 30 st6)"

text \<open>The first enemy of the list, front to back, that the bullet overlaps, and the others.\<close>

fun spec_firstMatch :: "Bullet \<Rightarrow> Enemy list \<Rightarrow> (Enemy \<times> Enemy list) option" where
  "spec_firstMatch b [] = None"
| "spec_firstMatch b (e # es) =
     (if overlaps b e then Some (e, es)
      else (case spec_firstMatch b es of
              None \<Rightarrow> None
            | Some (h, r) \<Rightarrow> Some (h, e # r)))"

text \<open>
  \<open>spec_resolve rand bs st\<close> visits the bullets \<open>bs\<close> front to back; \<open>bullets st\<close> collects the
  bullets visited so far that hit nothing.
\<close>

fun spec_resolve :: "(nat \<Rightarrow> real) \<Rightarrow> Bullet list \<Rightarrow> Game \<Rightarrow> Game" where
  "spec_resolve rand [] st = st"
| "spec_resolve rand (b # bs) st =
     (case spec_firstMatch b (enemies st) of
        None \<Rightarrow> spec_resolve rand bs (st\<lparr>bullets := bullets st @ [b]\<rparr>)
      | Some (e, es) \<Rightarrow> spec_resolve rand bs (spec_hit rand e (st\<lparr>enemies := es\<rparr>)))"

definition spec_bulletsVsEnemies :: "(nat \<Rightarrow> real) \<Rightarrow> Game \<Rightarrow> Game" where
  "spec_bulletsVsEnemies rand st = spec_resolve rand (bullets st) (st\<lparr>bullets := []\<rparr>)"

text \<open>The same state with both collections in the opposite order.\<close>

definition reversed :: "Game \<Rightarrow> Game" where
  "reversed st = st\<lparr>bullets := rev (bullets st), enemies := rev (enemies st)\<rparr>"

section \<open>Scenarios\<close>

text \<open>The shooting step of the tick at the successive inputs of a run of ticks.\<close>

definition shootingRun :: "(nat \<Rightarrow> real) \<Rightarrow> Input list \<Rightarrow> Game \<Rightarrow> Game" where
  "shootingRun rand inps st = foldl (\<lambda>s inp. shooting rand inp s) st inps"

text \<open>
  An 800 by 600 canvas with the mouse at the origin and the keys \<open>ks\<close> held, at time stamp
  \<open>t\<close> (in milliseconds).
\<close>

definition inputAt :: "string list \<Rightarrow> real \<Rightarrow> Input" where
  "inputAt ks t =
     \<lparr>keys = (\<lambda>k. k \<in> set ks), mouse_down = False, mouse_worldX = 0, mouse_worldY = 0,
      canvasW = 800, canvasH = 600, currentTime = t\<rparr>"

text \<open>
  \<open>n\<close> ticks with the space bar held, the first at time stamp \<open>t0\<close> and each one 150 ms after
  the one before.
\<close>

definition heldTicks :: "real \<Rightarrow> nat \<Rightarrow> Input list" where
  "heldTicks t0 n = map (\<lambda>k. inputAt ['' ''] (t0 + 150 * real k)) [0..<n]"

text \<open>The first state of a game on that canvas, with sound, started at time 0.\<close>

definition game0 :: Game where
  "game0 = initGame (inputAt [] 0) True 0"

text \<open>Successive calls of \<open>Player.update\<close>, one per tick, each with its input and its \<open>dt\<close>.\<close>

fun Player_updates :: "(nat \<Rightarrow> real) \<Rightarrow> (Input \<times> real) list \<Rightarrow> Game \<Rightarrow> Game option" where
  "Player_updates rand [] st = Some st"
| "Player_updates rand ((inp, dt) # ticks) st =
     (case Player_update rand inp dt st of
        None \<Rightarrow> None
      | Some st1 \<Rightarrow> Player_updates rand ticks st1)"

text \<open>
  Nine updates 25 milliseconds apart with the shift key held, followed by six with no key
  held; \<open>dt\<close> is the double that \<^verbatim>\<open>25 / 1000\<close> gives.
\<close>

definition dashRun :: "(Input \<times> real) list" where
  "dashRun =
     [(inputAt [''shift''] 25, dbl 0.025), (inputAt [''shift''] 50, dbl 0.025),
      (inputAt [''shift''] 75, dbl 0.025), (inputAt [''shift''] 100, dbl 0.025),
      (inputAt [''shift''] 125, dbl 0.025), (inputAt [''shift''] 150, dbl 0.025),
      (inputAt [''shift''] 175, dbl 0.025), (inputAt [''shift''] 200, dbl 0.025),
      (inputAt [''shift''] 225, dbl 0.025)]"

definition afterRun :: "(Input \<times> real) list" where
  "afterRun =
     [(inputAt [] 250, dbl 0.025), (inputAt [] 275, dbl 0.025), (inputAt [] 300, dbl 0.025),
      (inputAt [] 325, dbl 0.025), (inputAt [] 350, dbl 0.025), (inputAt [] 375, dbl 0.025)]"

text \<open>
  Two bullets and two enemies on a line: the first bullet overlaps both enemies, the second
  bullet only the first enemy.
\<close>

definition crossfire :: Game where
  "crossfire =
     game0\<lparr>bullets := [Bullet_new 0 0 0, Bullet_new 30 0 0],
           enemies := [\<lparr>e_x = 15, e_y = 0, e_radius = 12, e_speed = 80, e_hp = 1, e_hitFlash = 0\<rparr>,
                       \<lparr>e_x = - 15, e_y = 0, e_radius = 12, e_speed = 80, e_hp = 1, e_hitFlash = 0\<rparr>]\<rparr>"



text \<open>
  A state in hit-stop: 50 ms of hit-stop left, the screen shaken, one enemy flashing, the
  player's gun recoiled, and two dash afterimages, the older one almost faded.
\<close>

definition stunned :: Game where
  "stunned =
     game0\<lparr>hitstop := 0.05, screenShake_x := 10, screenShake_y := - 5,
           bullets := [Bullet_new 0 0 0],
           enemies := [\<lparr>e_x = 15, e_y = 0, e_radius = 12, e_speed = 80, e_hp = 1, e_hitFlash = 0.1\<rparr>,
                       \<lparr>e_x = 200, e_y = 0, e_radius = 12, e_speed = 80, e_hp = 1, e_hitFlash = 0\<rparr>],
           player := (Player_new 800 600)\<lparr>recoilOffset := 3,
             ghostAfterimages :=
               [\<lparr>g_x = 380, g_y = 300, g_angle = 0, g_alpha = 0.02, g_age = 0.29\<rparr>,
                \<lparr>g_x = 390, g_y = 300, g_angle = 0, g_alpha = 0.6, g_age = 0\<rparr>]\<rparr>\<rparr>"

section \<open>Auxiliary definitions for the proofs\<close>

text \<open>The particles that \<open>spawnParticles rand x y n\<close> appends when \<open>s\<close> random numbers are used up.\<close>

definition burst :: "(nat \<Rightarrow> real) \<Rightarrow> nat \<Rightarrow> real \<Rightarrow> real \<Rightarrow> nat \<Rightarrow> Particle list" where
  "burst rand s x y n = map (\<lambda>k. Particle_new rand (s + 5 * k) x y) [0..<n]"

text \<open>
  The cues that one call of \<open>playSound\<close> appends, and the number of random numbers it draws;
  \<open>silent\<close> stands for \<^verbatim>\<open>muted || !audioContext\<close>.
\<close>

definition cue :: "(nat \<Rightarrow> real) \<Rightarrow> real \<Rightarrow> real \<Rightarrow> string \<Rightarrow> real \<Rightarrow> real \<Rightarrow> bool \<Rightarrow> nat \<Rightarrow> Cue list" where
  "cue rand f d t v pv silent s =
     (if silent then []
      else [\<lparr>c_pitch = (if pv > 0 then f + (rand s - 0.5) * pv else f),
             c_duration = d, c_type = t, c_volume = v\<rparr>])"

definition cueDraws :: "real \<Rightarrow> bool \<Rightarrow> nat" where
  "cueDraws pv silent = (if silent \<or> \<not> pv > 0 then 0 else 1)"

text \<open>The bounds on hit points and combo counter.\<close>

definition healthy :: "Game \<Rightarrow> bool" where
  "healthy st \<longleftrightarrow>
     0 \<le> p_hp (player st) \<and> p_hp (player st) \<le> maxHp (player st) \<and> 0 \<le> combo st"

text \<open>The wave variables at their initial values.\<close>

definition firstWave :: "Game \<Rightarrow> bool" where
  "firstWave st \<longleftrightarrow>
     wave st = 1 \<and> enemiesPerWave st = 5 \<and> enemySpawnRate st = 2 \<and> waveBannerTime st = 0"

text \<open>Two states with the same wave variables.\<close>

definition sameWave :: "Game \<Rightarrow> Game \<Rightarrow> bool" where
  "sameWave st st' \<longleftrightarrow>
     wave st' = wave st \<and> enemiesPerWave st' = enemiesPerWave st \<and>
     enemySpawnRate st' = enemySpawnRate st \<and> waveBannerTime st' = waveBannerTime st"

text \<open>
  What the collision pass and the steps before the spawn step leave alone: the wave
  variables, the spawn timer, and the bounds on hit points and combo counter.
\<close>

definition keeps :: "Game \<Rightarrow> Game \<Rightarrow> bool" where
  "keeps st st' \<longleftrightarrow>
     sameWave st st' \<and> enemySpawnTimer st' = enemySpawnTimer st \<and> (healthy st \<longrightarrow> healthy st')"

text \<open>
  A timer that successive updates count down by their \<open>dt\<close>, as \<^verbatim>\<open>dashTimer -= dt\<close> does:
  its value after all of them (\<open>countdown\<close>), and whether it is positive after each of them
  (\<open>positiveThrough\<close>). \<open>wearOff\<close> is the invulnerability timer of a player who is not dashing:
  an update counts it down only while it is positive.
\<close>

fun countdown :: "real \<Rightarrow> real list \<Rightarrow> real" where
  "countdown v [] = v"
| "countdown v (dt # dts) = countdown (dbl (v - dt)) dts"

fun positiveThrough :: "real \<Rightarrow> real list \<Rightarrow> bool" where
  "positiveThrough v [] = True"
| "positiveThrough v (dt # dts) = (0 < dbl (v - dt) \<and> positiveThrough (dbl (v - dt)) dts)"

fun wearOff :: "real \<Rightarrow> real list \<Rightarrow> real" where
  "wearOff v [] = v"
| "wearOff v (dt # dts) = wearOff (if v > 0 then dbl (v - dt) else v) dts"

text \<open>The condition of the dash activation in \<open>Player.update\<close>.\<close>

definition dashTriggered :: "Input \<Rightarrow> Player \<Rightarrow> bool" where
  "dashTriggered inp p \<longleftrightarrow>
     (keys inp ''shift'' \<or> keys inp ''shiftleft'' \<or> keys inp ''shiftright'')
     \<and> \<not> dashActive p \<and> dashCooldown p \<le> 0"

text \<open>The blocks of \<open>Player.update\<close> that follow the dash activation; they touch the player only.\<close>

definition afterActivation :: "Input \<Rightarrow> real \<Rightarrow> Player \<Rightarrow> Player option" where
  "afterActivation inp dt p =
     (case normalMovement inp dt (updateRecoil dt (dashMovement dt p)) of
        None \<Rightarrow> None
      | Some q \<Rightarrow> Some (updateInvulnerability dt (aimAtMouse inp (keepInBounds inp q))))"

section \<open>Basic facts\<close>

text \<open>The helpers as record updates.\<close>

lemma burst_Suc: "burst rand s x y (Suc n) = Particle_new rand s x y # burst rand (s + 5) x y n"
  by (simp add: burst_def map_upt_Suc add.assoc del: upt_Suc)

lemma spawnParticles_eq:
  "spawnParticles rand x y n st =
     st\<lparr>particles := particles st @ burst rand (seed st) x y n, seed := seed st + 5 * n\<rparr>"
proof (induction n arbitrary: st)
  case 0
  show ?case by (simp add: burst_def)
next
  case (Suc n)
  show ?case
    by (simp add: Suc.IH burst_Suc add.assoc)
qed

lemma playSound_eq:
  "playSound rand f d t v pv st =
     st\<lparr>seed := seed st + cueDraws pv (muted st \<or> \<not> audio st),
        sounds := sounds st @ cue rand f d t v pv (muted st \<or> \<not> audio st) (seed st)\<rparr>"
  by (simp add: playSound_def cue_def cueDraws_def)

lemma splice1_update: "splice1 j (xs[j := v]) = splice1 j xs"
  by (simp add: splice1_def)


lemma sqrt_less_iff: "0 \<le> x \<Longrightarrow> sqrt x < r \<longleftrightarrow> 0 < r \<and> x < r * r"
proof (cases "0 < r")
  case True
  assume "0 \<le> x"
  have "sqrt x < r \<longleftrightarrow> sqrt x < sqrt (r * r)" using True by simp
  also have "\<dots> \<longleftrightarrow> x < r * r" by (rule real_sqrt_less_iff)
  finally show ?thesis using True by simp
next
  case False
  assume "0 \<le> x"
  have "\<not> sqrt x < r" using False real_sqrt_ge_zero [OF \<open>0 \<le> x\<close>] by linarith
  then show ?thesis using False by simp
qed

lemma overlaps_iff:
  "overlaps b e \<longleftrightarrow>
     0 < b_radius b + e_radius e \<and>
     (b_x b - e_x e) * (b_x b - e_x e) + (b_y b - e_y e) * (b_y b - e_y e)
       < (b_radius b + e_radius e) * (b_radius b + e_radius e)"
  by (simp add: overlaps_def Let_def sqrt_less_iff)

lemma game0_player: "player game0 = Player_new 800 600"
  by (simp add: game0_def initGame_def inputAt_def)

text \<open>Rounding to a double.\<close>

lemma dbl_0: "dbl 0 = 0"
  by (simp add: dbl_def)

lemma floor_log2_scaled:
  assumes "0 < x" and "2 ^ 52 \<le> x * 2 ^ k" and "x * 2 ^ k < 2 ^ 53"
  shows "\<lfloor>log 2 x\<rfloor> - 52 = - int k"
proof -
  have a: "(2::real) powr (of_int 52) = 2 ^ 52"
    using powr_realpow [of 2 52] by simp
  have b: "(2::real) powr (of_int 52 + 1) = 2 ^ 53"
    using powr_realpow [of 2 53] by simp
  have pos: "0 < x * 2 ^ k" using assms(1) by simp
  have "2 powr (of_int 52) \<le> x * 2 ^ k \<and> x * 2 ^ k < 2 powr (of_int 52 + 1)"
    unfolding a b using assms(2,3) by blast
  then have f: "\<lfloor>log 2 (x * 2 ^ k)\<rfloor> = 52"
    using floor_log_eq_powr_iff [OF pos, of 2 52] by simp
  have "log 2 (x * 2 ^ k) = log 2 x + of_int (int k)"
    using assms(1) by (simp add: log_mult log_nat_power)
  then have "\<lfloor>log 2 x + of_int (int k)\<rfloor> = 52" using f by simp
  then have "\<lfloor>log 2 x\<rfloor> + int k = 52"
    unfolding floor_add_int [symmetric] .
  then show ?thesis by linarith
qed

text \<open>
  How \<open>dbl\<close> is computed: when \<open>x * 2 ^ k\<close> lies between \<open>2 ^ 52\<close> and \<open>2 ^ 53\<close>, the double
  nearest to \<open>x\<close> is the nearest integer to \<open>x * 2 ^ k\<close>, divided by \<open>2 ^ k\<close>.
\<close>

lemma dbl_scaled:
  assumes "0 < x" and "2 ^ 52 \<le> x * 2 ^ k" and "x * 2 ^ k < 2 ^ 53"
  shows "dbl x = of_int (roundEven (x * 2 ^ k)) / 2 ^ k"
proof -
  note e = floor_log2_scaled [OF assms]
  have p: "(2::real) powr of_int (- int k) = 1 / 2 ^ k"
    using powr_realpow [of 2 k] by (simp add: powr_minus field_simps)
  have s: "sgn x = 1" "\<bar>x\<bar> = x" "x \<noteq> 0" using assms(1) by simp_all
  have "dbl x = sgn x * (of_int (roundEven (\<bar>x\<bar> / 2 powr of_int (\<lfloor>log 2 \<bar>x\<bar>\<rfloor> - 52)))
                  * 2 powr of_int (\<lfloor>log 2 \<bar>x\<bar>\<rfloor> - 52))"
    using s(3) by (simp only: dbl_def Let_def if_False)
  also have "\<dots> = of_int (roundEven (x / 2 powr of_int (- int k))) * 2 powr of_int (- int k)"
    by (simp only: s e mult_1)
  also have "\<dots> = of_int (roundEven (x * 2 ^ k)) / 2 ^ k"
    unfolding p by simp
  finally show ?thesis .
qed

lemma dbl_minus: "dbl (- x) = - dbl x"
  by (simp add: dbl_def Let_def sgn_minus)

lemmas dbl_eval =
  dbl_scaled [where k = 52] dbl_scaled [where k = 53] dbl_scaled [where k = 54]
  dbl_scaled [where k = 55] dbl_scaled [where k = 56] dbl_scaled [where k = 57]
  dbl_scaled [where k = 58] dbl_scaled [where k = 59] dbl_scaled [where k = 107]
  dbl_minus dbl_0 roundEven_def Let_def

section \<open>The Bullet-Enemy pass\<close>

text \<open>The body of a hit is the two removals followed by the effects of a recorded hit.\<close>

lemma bulletHit_eq:
  "bulletHit rand i j st =
     spec_hit rand (enemies st ! j)
       (st\<lparr>bullets := splice1 i (bullets st), enemies := splice1 j (enemies st)\<rparr>)"
  by (simp add: bulletHit_def spec_hit_def spawnParticles_eq splice1_update addShake_def
      playSound_eq Let_def)

lemma spec_hit_lists:
  "spec_hit rand e (st\<lparr>bullets := B, enemies := E\<rparr>) = (spec_hit rand e st)\<lparr>bullets := B, enemies := E\<rparr>"
  by (simp add: spec_hit_def spawnParticles_eq addShake_def playSound_eq Let_def)

lemma spec_hit_bullets: "spec_hit rand e (st\<lparr>bullets := B\<rparr>) = (spec_hit rand e st)\<lparr>bullets := B\<rparr>"
  by (simp add: spec_hit_def spawnParticles_eq addShake_def playSound_eq Let_def)

lemma spec_hit_sel:
  "bullets (spec_hit rand e st) = bullets st"
  "enemies (spec_hit rand e st) = enemies st"
  by (simp_all add: spec_hit_def spawnParticles_eq addShake_def playSound_eq Let_def)

text \<open>The inner loop finds what a front-to-back search of the reversed array finds.\<close>

lemma scanEnemies_firstMatch:
  "n \<le> length (enemies st) \<Longrightarrow>
   (case spec_firstMatch (bullets st ! i) (rev (take n (enemies st))) of
      None \<Rightarrow> scanEnemies rand i n st = st
    | Some (h, r) \<Rightarrow>
        (\<exists>j<n. h = enemies st ! j \<and> rev r = splice1 j (take n (enemies st)) \<and>
               scanEnemies rand i n st = bulletHit rand i j st))"
proof (induction n)
  case 0
  show ?case by simp
next
  case (Suc n)
  then have n: "n < length (enemies st)" by simp
  have tk: "rev (take (Suc n) (enemies st)) = enemies st ! n # rev (take n (enemies st))"
    using n by (simp add: take_Suc_conv_app_nth)
  show ?case
  proof (cases "overlaps (bullets st ! i) (enemies st ! n)")
    case True
    have "splice1 n (take (Suc n) (enemies st)) = take n (enemies st)"
      using n by (simp add: splice1_def min_def)
    with True show ?thesis
      by (auto simp: tk)
  next
    case False
    show ?thesis
    proof (cases "spec_firstMatch (bullets st ! i) (rev (take n (enemies st)))")
      case None
      with Suc.IH n False show ?thesis by (simp add: tk)
    next
      case (Some hr)
      obtain h r where hr: "hr = (h, r)" by (cases hr)
      from Suc.IH n Some hr obtain j where j: "j < n" "h = enemies st ! j"
        "rev r = splice1 j (take n (enemies st))"
        "scanEnemies rand i n st = bulletHit rand i j st"
        by auto
      have "splice1 j (take (Suc n) (enemies st)) = splice1 j (take n (enemies st)) @ [enemies st ! n]"
        using n j(1) by (simp add: splice1_def take_Suc_conv_app_nth)
      with j False Some hr show ?thesis
        by (auto simp: tk intro!: exI [of _ j])
    qed
  qed
qed

lemma bulletsVsEnemies_from_spec:
  "bullets st = pre @ post \<Longrightarrow>
   bulletsVsEnemies_from rand (length pre) st =
     reversed (spec_resolve rand (rev pre) ((reversed st)\<lparr>bullets := rev post\<rparr>))"
proof (induction pre arbitrary: st post rule: rev_induct)
  case Nil
  then show ?case by (simp add: reversed_def)
next
  case (snoc b pre)
  let ?es = "enemies st"
  have bi: "bullets st ! length pre = b" using snoc.prems by simp
  have step: "bulletsVsEnemies_from rand (length (pre @ [b])) st =
        bulletsVsEnemies_from rand (length pre) (scanEnemies rand (length pre) (length ?es) st)"
    by simp
  have fm: "case spec_firstMatch b (rev ?es) of
      None \<Rightarrow> scanEnemies rand (length pre) (length ?es) st = st
    | Some (h, r) \<Rightarrow>
        (\<exists>j<length ?es. h = ?es ! j \<and> rev r = splice1 j ?es \<and>
               scanEnemies rand (length pre) (length ?es) st = bulletHit rand (length pre) j st)"
    using scanEnemies_firstMatch [where n = "length ?es" and st = st and i = "length pre" and rand = rand] bi
    by (auto split: option.splits)
  show ?case
  proof (cases "spec_firstMatch b (rev ?es)")
    case None
    with fm have sc: "scanEnemies rand (length pre) (length ?es) st = st" by simp
    have "bullets st = pre @ (b # post)" using snoc.prems by simp
    from snoc.IH [OF this] show ?thesis
      by (simp add: sc None reversed_def)
  next
    case (Some hr)
    obtain h r where hr: "hr = (h, r)" by (cases hr)
    from fm Some hr obtain j where j: "j < length ?es" "h = ?es ! j" "rev r = splice1 j ?es"
      "scanEnemies rand (length pre) (length ?es) st = bulletHit rand (length pre) j st"
      by auto
    have r: "splice1 j ?es = rev r" using j(3) by simp
    have sp: "splice1 (length pre) (bullets st) = pre @ post"
      using snoc.prems by (simp add: splice1_def)
    let ?st' = "spec_hit rand h (st\<lparr>bullets := pre @ post, enemies := rev r\<rparr>)"
    have sc: "scanEnemies rand (length pre) (length ?es) st = ?st'"
      by (simp add: j(4) bulletHit_eq sp r j(2))
    have bs: "bullets ?st' = pre @ post" by (simp add: spec_hit_sel)
    have lhs: "bulletsVsEnemies_from rand (length (pre @ [b])) st =
        bulletsVsEnemies_from rand (length pre) ?st'"
      by (simp add: sc)
    have e1: "(reversed ?st')\<lparr>bullets := rev post\<rparr> =
        spec_hit rand h ((reversed st)\<lparr>bullets := rev post, enemies := r\<rparr>)"
      by (simp add: reversed_def spec_hit_lists spec_hit_sel)
    have rhs: "spec_resolve rand (rev (pre @ [b])) ((reversed st)\<lparr>bullets := rev post\<rparr>) =
        spec_resolve rand (rev pre) ((reversed ?st')\<lparr>bullets := rev post\<rparr>)"
      unfolding e1 by (simp add: Some hr reversed_def)
    show ?thesis
      unfolding lhs rhs by (rule snoc.IH [OF bs])
  qed
qed

lemma spec_hit_counters:
  "combo (spec_hit rand e st) = combo st + 1"
  "score (spec_hit rand e st) = score st + 10 * (combo st + 1)"
  "comboTimer (spec_hit rand e st) = comboResetTime"
  "hitstop (spec_hit rand e st) = 0.05"
  by (simp_all add: spec_hit_def spawnParticles_eq addShake_def playSound_eq Let_def)

lemma crossfire_bullets: "bullets crossfire = [Bullet_new 0 0 0, Bullet_new 30 0 0]"
  by (simp add: crossfire_def)

lemma crossfire_enemies:
  "enemies crossfire =
     [\<lparr>e_x = 15, e_y = 0, e_radius = 12, e_speed = 80, e_hp = 1, e_hitFlash = 0\<rparr>,
      \<lparr>e_x = - 15, e_y = 0, e_radius = 12, e_speed = 80, e_hp = 1, e_hitFlash = 0\<rparr>]"
  by (simp add: crossfire_def)

lemma crossfire_counters: "combo crossfire = 0" "score crossfire = 0"
  by (simp_all add: crossfire_def game0_def initGame_def)
























text \<open>
  Claim C7, as stated: under simultaneous overlaps the pair that resolves is the first match
  in insertion order of both arrays, so that combo and score are those of insertion-order
  first-match resolution. This fails on \<open>crossfire\<close>: the code scores two hits (combo 2,
  score 30), insertion-order first-match resolution one hit (combo 1, score 10).
\<close>

theorem insertion_order_counterexample:
  "combo (bulletsVsEnemies (\<lambda>n. 0) crossfire) = 2
   \<and> score (bulletsVsEnemies (\<lambda>n. 0) crossfire) = 30
   \<and> combo (spec_bulletsVsEnemies (\<lambda>n. 0) crossfire) = 1
   \<and> score (spec_bulletsVsEnemies (\<lambda>n. 0) crossfire) = 10"
  by (simp add: bulletsVsEnemies_def spec_bulletsVsEnemies_def crossfire_bullets
      crossfire_enemies overlaps_iff Bullet_new_def bulletHit_eq spec_hit_sel spec_hit_counters
      splice1_def crossfire_counters)

text \<open>
  Claim C7, amended: the pair that resolves is the first match in iteration order, and the
  iteration order is the reverse of insertion order, for the bullets and for the enemies.
  The pass of the code is first-match resolution run on both arrays reversed; this holds for
  the whole state, combo and score included.
\<close>

theorem first_match_reverse_insertion_order:
  "bulletsVsEnemies rand st = reversed (spec_bulletsVsEnemies rand (reversed st))"
  using bulletsVsEnemies_from_spec [where st = st and pre = "bullets st" and post = "[]"
      and rand = rand]
  by (simp add: bulletsVsEnemies_def spec_bulletsVsEnemies_def reversed_def)

section \<open>Player.takeDamage\<close>

text \<open>
  Claim C3. A call of \<open>takeDamage\<close> while \<open>invulnerable > 0\<close> or \<open>dashActive\<close> returns false
  (not killed) and leaves the whole state as it was: hit points, invulnerability timer,
  shake offset, hit-stop, sounds played and random numbers drawn.
\<close>

theorem takeDamage_blocked:
  "invulnerable (player st) > 0 \<or> dashActive (player st) \<Longrightarrow>
   takeDamage rand amount st = (False, st)"
  by (simp add: takeDamage_def)

text \<open>The theorem at a fresh game whose player has half a second of invulnerability left.\<close>

theorem takeDamage_blocked_witness:
  "takeDamage (\<lambda>n. 0) 10 (game0\<lparr>player := (player game0)\<lparr>invulnerable := 1 / 2\<rparr>\<rparr>) =
     (False, game0\<lparr>player := (player game0)\<lparr>invulnerable := 1 / 2\<rparr>\<rparr>)"
  using takeDamage_blocked [of "game0\<lparr>player := (player game0)\<lparr>invulnerable := 1 / 2\<rparr>\<rparr>"
      "\<lambda>n. 0" 10]
  by simp


section \<open>Player.update and Enemy.update\<close>

text \<open>No normalisation divides by zero.\<close>

lemma sqrt_sum_squares_zero_iff: "sqrt (dx * dx + dy * dy) = 0 \<longleftrightarrow> dx = 0 \<and> dy = 0"
proof -
  have "dx * dx + dy * dy = 0 \<longleftrightarrow> dx = 0 \<and> dy = 0"
    by (rule sum_squares_eq_zero_iff)
  then show ?thesis by simp
qed

lemma normalize_Some:
  "dx \<noteq> 0 \<or> dy \<noteq> 0 \<Longrightarrow>
   normalize dx dy = Some (dx / sqrt (dx * dx + dy * dy), dy / sqrt (dx * dx + dy * dy))"
  by (auto simp: normalize_def checked_div_def Let_def sqrt_sum_squares_zero_iff)

lemma normalMovement_total: "\<exists>q. normalMovement inp dt p = Some q"
  by (cases "moveKeys inp") (auto simp: normalMovement_def normalize_Some)

lemma afterActivation_total: "\<exists>q. afterActivation inp dt p = Some q"
  using normalMovement_total [of inp dt "updateRecoil dt (dashMovement dt p)"]
  by (auto simp: afterActivation_def)

lemma dashActivation_total: "\<exists>st'. dashActivation rand inp st = Some st'"
  by (cases "moveKeys inp") (auto simp: dashActivation_def Let_def normalize_Some)

lemma Player_update_alt:
  "Player_update rand inp dt st =
     (case dashActivation rand inp (st\<lparr>player := updateDashCooldown dt (player st)\<rparr>) of
        None \<Rightarrow> None
      | Some st1 \<Rightarrow>
          (case afterActivation inp dt (player st1) of
             None \<Rightarrow> None
           | Some p \<Rightarrow> Some (st1\<lparr>player := p\<rparr>)))"
  by (simp add: Player_update_def afterActivation_def split: option.splits)

lemma Player_update_total: "\<exists>st'. Player_update rand inp dt st = Some st'"
proof -
  obtain st1 where a: "dashActivation rand inp (st\<lparr>player := updateDashCooldown dt (player st)\<rparr>) = Some st1"
    using dashActivation_total by blast
  obtain p where "afterActivation inp dt (player st1) = Some p"
    using afterActivation_total by blast
  with a show ?thesis by (simp add: Player_update_alt)
qed

lemma Enemy_update_total: "\<exists>e'. Enemy_update dt pl e = Some e'"
  by (auto simp: Enemy_update_def checked_div_def Let_def)

lemma updateEnemies_total: "\<exists>es'. updateEnemies dt pl es = Some es' \<and> length es' = length es"
proof (induction es)
  case Nil
  show ?case by simp
next
  case (Cons e es)
  obtain e' where "Enemy_update dt pl e = Some e'" using Enemy_update_total by blast
  with Cons show ?case by auto
qed

lemma Enemy_update_same_point:
  "e_x e = p_x pl \<Longrightarrow> e_y e = p_y pl \<Longrightarrow>
   \<exists>e'. Enemy_update dt pl e = Some e' \<and> e_x e' = e_x e \<and> e_y e' = e_y e"
  by (simp add: Enemy_update_def Let_def)

text \<open>What the blocks after the dash activation do to the dash and the invulnerability.\<close>

lemma dashMovement_sel:
  "dashActive (dashMovement dt p) = (dashActive p \<and> dbl (dashTimer p - dt) > 0)"
  "dashTimer (dashMovement dt p) = (if dashActive p then dbl (dashTimer p - dt) else dashTimer p)"
  "invulnerable (dashMovement dt p) = invulnerable p"
  "dashDuration (dashMovement dt p) = dashDuration p"
  "p_hp (dashMovement dt p) = p_hp p"
  "maxHp (dashMovement dt p) = maxHp p"
  "p_radius (dashMovement dt p) = p_radius p"
  "recoilOffset (dashMovement dt p) = recoilOffset p"
  by (auto simp: dashMovement_def Let_def)

lemma updateRecoil_eq:
  "updateRecoil dt p =
     p\<lparr>recoilOffset := (if recoilOffset p > 0 then max 0 (recoilOffset p - dt * 20)
                         else recoilOffset p)\<rparr>"
  by (simp add: updateRecoil_def Let_def max_def)

lemma normalMovement_frame:
  "normalMovement inp dt p = Some q \<Longrightarrow> \<exists>a b. q = p\<lparr>p_x := a, p_y := b\<rparr>"
proof (cases "moveKeys inp")
  case (Pair dx dy)
  assume q: "normalMovement inp dt p = Some q"
  show ?thesis
  proof (cases "\<not> dashActive p \<and> (dx \<noteq> 0 \<or> dy \<noteq> 0)")
    case True
    with q Pair show ?thesis
      by (auto simp: normalMovement_def normalize_Some Let_def)
  next
    case False
    with q Pair have "q = p" by (auto simp: normalMovement_def Let_def split: if_splits)
    then have "q = p\<lparr>p_x := p_x p, p_y := p_y p\<rparr>" by simp
    then show ?thesis by blast
  qed
qed

lemma afterActivation_frame:
  assumes "afterActivation inp dt p = Some p'"
  shows "\<exists>a b c. p' = updateInvulnerability dt
           ((updateRecoil dt (dashMovement dt p))\<lparr>p_x := a, p_y := b, p_angle := c\<rparr>)"
proof -
  from assms obtain q where q: "normalMovement inp dt (updateRecoil dt (dashMovement dt p)) = Some q"
    and p': "p' = updateInvulnerability dt (aimAtMouse inp (keepInBounds inp q))"
    by (auto simp: afterActivation_def split: option.splits)
  from normalMovement_frame [OF q] obtain a b where
    "q = (updateRecoil dt (dashMovement dt p))\<lparr>p_x := a, p_y := b\<rparr>" by blast
  then show ?thesis
    unfolding p' by (simp add: aimAtMouse_def keepInBounds_def Let_def) blast
qed

lemma afterActivation_dash:
  assumes "afterActivation inp dt p = Some p'"
  shows "dashActive p' = (dashActive p \<and> dbl (dashTimer p - dt) > 0)"
    and "dashTimer p' = (if dashActive p then dbl (dashTimer p - dt) else dashTimer p)"
    and "invulnerable p' =
           (if invulnerable p > 0 \<and> \<not> dashActive p' then dbl (invulnerable p - dt)
            else invulnerable p)"
    and "dashDuration p' = dashDuration p"
    and "p_hp p' = p_hp p" and "maxHp p' = maxHp p"
proof -
  from afterActivation_frame [OF assms] obtain a b c where
    p': "p' = updateInvulnerability dt
           ((updateRecoil dt (dashMovement dt p))\<lparr>p_x := a, p_y := b, p_angle := c\<rparr>)"
    by blast
  show "dashActive p' = (dashActive p \<and> dbl (dashTimer p - dt) > 0)"
    unfolding p' by (simp add: updateInvulnerability_def updateRecoil_eq dashMovement_sel)
  show "dashTimer p' = (if dashActive p then dbl (dashTimer p - dt) else dashTimer p)"
    unfolding p' by (simp add: updateInvulnerability_def updateRecoil_eq dashMovement_sel)
  show "invulnerable p' =
           (if invulnerable p > 0 \<and> \<not> dashActive p' then dbl (invulnerable p - dt)
            else invulnerable p)"
    unfolding p' by (auto simp: updateInvulnerability_def updateRecoil_eq dashMovement_sel)
  show "dashDuration p' = dashDuration p"
    unfolding p' by (simp add: updateInvulnerability_def updateRecoil_eq dashMovement_sel)
  show "p_hp p' = p_hp p"
    unfolding p' by (simp add: updateInvulnerability_def updateRecoil_eq dashMovement_sel)
  show "maxHp p' = maxHp p"
    unfolding p' by (simp add: updateInvulnerability_def updateRecoil_eq dashMovement_sel)
qed

lemma dashActivation_idle:
  "\<not> dashTriggered inp (player st) \<Longrightarrow> dashActivation rand inp st = Some st"
  by (auto simp: dashActivation_def dashTriggered_def Let_def)

lemma dashActivation_frame:
  assumes "dashActivation rand inp st = Some st1"
  shows "\<exists>p ps s sx sy sn.
           st1 = st\<lparr>player := p, particles := ps, seed := s, screenShake_x := sx,
                    screenShake_y := sy, sounds := sn\<rparr> \<and>
           (if dashTriggered inp (player st) then
              \<exists>a b. p = (player st)\<lparr>dashDirection_x := a, dashDirection_y := b,
                          dashActive := True, dashTimer := dashDuration (player st),
                          dashCooldown := dashCooldownTime (player st),
                          invulnerable := dashDuration (player st)\<rparr>
            else p = player st)"
proof (cases "dashTriggered inp (player st)")
  case False
  with assms have "st1 = st" by (simp add: dashActivation_idle)
  then have "st1 = st\<lparr>player := player st, particles := particles st, seed := seed st,
      screenShake_x := screenShake_x st, screenShake_y := screenShake_y st, sounds := sounds st\<rparr>"
    by simp
  with False show ?thesis by metis
next
  case True
  obtain dx dy where mk: "moveKeys inp = (dx, dy)" by (cases "moveKeys inp")
  define d where "d = (if dx \<noteq> 0 \<or> dy \<noteq> 0 then normalize dx dy
     else Some (cos (p_angle (player st)), sin (p_angle (player st))))"
  obtain a b where ab: "d = Some (a, b)"
    by (cases "dx \<noteq> 0 \<or> dy \<noteq> 0") (auto simp: d_def normalize_Some)
  have "st1 = playSound rand 400 0.2 ''sawtooth'' 0.25 100
          (addShake rand 3
            (spawnParticles rand (p_x (player st)) (p_y (player st)) 8
              (st\<lparr>player := (player st)\<lparr>dashDirection_x := a, dashDirection_y := b,
                          dashActive := True, dashTimer := dashDuration (player st),
                          dashCooldown := dashCooldownTime (player st),
                          invulnerable := dashDuration (player st)\<rparr>\<rparr>)))"
    using assms True mk ab
    by (auto simp: dashActivation_def dashTriggered_def Let_def d_def split: if_splits)
  then have "st1 = st\<lparr>player := (player st)\<lparr>dashDirection_x := a, dashDirection_y := b,
                          dashActive := True, dashTimer := dashDuration (player st),
                          dashCooldown := dashCooldownTime (player st),
                          invulnerable := dashDuration (player st)\<rparr>,
         particles := particles st1, seed := seed st1, screenShake_x := screenShake_x st1,
         screenShake_y := screenShake_y st1, sounds := sounds st1\<rparr>"
    by (simp add: spawnParticles_eq addShake_def playSound_eq)
  with True show ?thesis by metis
qed


lemma updateDashCooldown_sel:
  "dashActive (updateDashCooldown dt p) = dashActive p"
  "dashTimer (updateDashCooldown dt p) = dashTimer p"
  "dashDuration (updateDashCooldown dt p) = dashDuration p"
  "invulnerable (updateDashCooldown dt p) = invulnerable p"
  "p_hp (updateDashCooldown dt p) = p_hp p"
  "maxHp (updateDashCooldown dt p) = maxHp p"
  by (simp_all add: updateDashCooldown_def)

lemma Player_update_frame:
  assumes "Player_update rand inp dt st = Some st'"
  shows "\<exists>p ps s sx sy sn.
           st' = st\<lparr>player := p, particles := ps, seed := s, screenShake_x := sx,
                    screenShake_y := sy, sounds := sn\<rparr> \<and>
           p_hp p = p_hp (player st) \<and> maxHp p = maxHp (player st)"
proof -
  let ?st0 = "st\<lparr>player := updateDashCooldown dt (player st)\<rparr>"
  from assms obtain st1 p' where a: "dashActivation rand inp ?st0 = Some st1"
    and b: "afterActivation inp dt (player st1) = Some p'" and c: "st' = st1\<lparr>player := p'\<rparr>"
    by (auto simp: Player_update_alt split: option.splits)
  from dashActivation_frame [OF a] obtain p ps s sx sy sn where
    st1: "st1 = ?st0\<lparr>player := p, particles := ps, seed := s, screenShake_x := sx,
                    screenShake_y := sy, sounds := sn\<rparr>"
    and p: "p_hp p = p_hp (player ?st0) \<and> maxHp p = maxHp (player ?st0)"
    by (auto split: if_splits)
  have "st' = st\<lparr>player := p', particles := ps, seed := s, screenShake_x := sx,
                    screenShake_y := sy, sounds := sn\<rparr>"
    unfolding c st1 by simp
  moreover have "p_hp p' = p_hp (player st) \<and> maxHp p' = maxHp (player st)"
    using afterActivation_dash(5,6) [OF b] p by (simp add: st1 updateDashCooldown_sel)
  ultimately show ?thesis by blast
qed

lemma Player_update_dash:
  assumes "Player_update rand inp dt st = Some st'"
    and "trig = dashTriggered inp (updateDashCooldown dt (player st))"
    and "T = (if trig then dashDuration (player st) else dashTimer (player st))"
    and "v = (if trig then dashDuration (player st) else invulnerable (player st))"
  shows "dashActive (player st') = ((dashActive (player st) \<or> trig) \<and> dbl (T - dt) > 0)"
    and "dashTimer (player st') = (if dashActive (player st) \<or> trig then dbl (T - dt) else T)"
    and "invulnerable (player st') =
           (if v > 0 \<and> \<not> dashActive (player st') then dbl (v - dt) else v)"
    and "dashDuration (player st') = dashDuration (player st)"
proof -
  let ?st0 = "st\<lparr>player := updateDashCooldown dt (player st)\<rparr>"
  from assms(1) obtain st1 p' where a: "dashActivation rand inp ?st0 = Some st1"
    and b: "afterActivation inp dt (player st1) = Some p'" and c: "st' = st1\<lparr>player := p'\<rparr>"
    by (auto simp: Player_update_alt split: option.splits)
  from dashActivation_frame [OF a] have p1:
    "dashActive (player st1) = (dashActive (player st) \<or> trig)"
    "dashTimer (player st1) = T" "invulnerable (player st1) = v"
    "dashDuration (player st1) = dashDuration (player st)"
    using assms(2-4) by (auto simp: updateDashCooldown_sel split: if_splits)
  have p': "player st' = p'" by (simp add: c)
  show "dashActive (player st') = ((dashActive (player st) \<or> trig) \<and> dbl (T - dt) > 0)"
    using afterActivation_dash(1) [OF b] by (simp add: p' p1)
  show "dashTimer (player st') = (if dashActive (player st) \<or> trig then dbl (T - dt) else T)"
    using afterActivation_dash(2) [OF b] by (simp add: p' p1)
  show "invulnerable (player st') =
           (if v > 0 \<and> \<not> dashActive (player st') then dbl (v - dt) else v)"
    using afterActivation_dash(3) [OF b] by (simp add: p' p1)
  show "dashDuration (player st') = dashDuration (player st)"
    using afterActivation_dash(4) [OF b] by (simp add: p' p1)
qed

lemma Player_updates_append:
  "Player_updates rand (a @ b) st =
     (case Player_updates rand a st of None \<Rightarrow> None | Some s \<Rightarrow> Player_updates rand b s)"
proof (induction a arbitrary: st)
  case Nil
  show ?case by simp
next
  case (Cons t a)
  obtain inp dt where t: "t = (inp, dt)" by (cases t)
  show ?case
    by (cases "Player_update rand inp dt st") (simp_all add: t Cons.IH)
qed

text \<open>
  A dash from its first update (dashing already, or triggered by that update) to the update
  that ends it: \<open>T\<close> is the time the dash still has to run, \<open>D\<close> the dash duration.
\<close>

lemma dash_run:
  assumes "(dashActive (player s) \<and> invulnerable (player s) = D \<and> dashTimer (player s) = T)
           \<or> (dashTriggered (fst (hd ticks)) (updateDashCooldown (snd (hd ticks)) (player s)) \<and> T = D)"
    and "dashDuration (player s) = D" and "0 < D"
    and "ticks \<noteq> []"
    and "positiveThrough T (map snd (butlast ticks))"
    and "countdown T (map snd ticks) \<le> 0"
  shows "\<exists>st'. Player_updates rand ticks s = Some st' \<and> \<not> dashActive (player st')
           \<and> invulnerable (player st') = dbl (D - snd (last ticks))
           \<and> (\<forall>k. 0 < k \<and> k < length ticks \<longrightarrow>
                 (\<exists>u. Player_updates rand (take k ticks) s = Some u \<and> dashActive (player u)
                      \<and> invulnerable (player u) = D))"
  using assms
proof (induction ticks arbitrary: s T)
  case Nil
  then show ?case by simp
next
  case (Cons t rest)
  obtain inp dt where t: "t = (inp, dt)" by (cases t)
  obtain s1 where s1: "Player_update rand inp dt s = Some s1"
    using Player_update_total by blast
  define trig where "trig = dashTriggered inp (updateDashCooldown dt (player s))"
  have start: "(dashActive (player s) \<and> invulnerable (player s) = D \<and> dashTimer (player s) = T)
           \<or> (trig \<and> T = D)"
    using Cons.prems(1) by (simp add: t trig_def)
  have ntrig: "dashActive (player s) \<Longrightarrow> \<not> trig"
    by (simp add: trig_def dashTriggered_def updateDashCooldown_sel)
  have T: "T = (if trig then dashDuration (player s) else dashTimer (player s))"
    using start ntrig Cons.prems(2) by auto
  have v: "D = (if trig then dashDuration (player s) else invulnerable (player s))"
    using start ntrig Cons.prems(2) by auto
  have act: "dashActive (player s) \<or> trig" using start by auto
  note step = Player_update_dash [OF s1 trig_def T v]
  have a1: "dashActive (player s1) = (dbl (T - dt) > 0)" using step(1) act by simp
  have t1: "dashTimer (player s1) = dbl (T - dt)" using step(2) act by simp
  have i1: "invulnerable (player s1) = (if \<not> dashActive (player s1) then dbl (D - dt) else D)"
    using step(3) Cons.prems(3) by simp
  have d1: "dashDuration (player s1) = D" using step(4) Cons.prems(2) by simp
  show ?case
  proof (cases "rest = []")
    case True
    have "dbl (T - dt) \<le> 0" using Cons.prems(6) True by (simp add: t)
    then have "\<not> dashActive (player s1)" using a1 by simp
    then show ?thesis
      using s1 i1 True by (simp add: t)
  next
    case False
    have pos: "0 < dbl (T - dt)" and p5: "positiveThrough (dbl (T - dt)) (map snd (butlast rest))"
      using Cons.prems(5) False by (simp_all add: t)
    have da: "dashActive (player s1)" using a1 pos by simp
    then have inv: "invulnerable (player s1) = D" using i1 by simp
    have p1: "(dashActive (player s1) \<and> invulnerable (player s1) = D
                \<and> dashTimer (player s1) = dbl (T - dt))
           \<or> (dashTriggered (fst (hd rest)) (updateDashCooldown (snd (hd rest)) (player s1))
                \<and> dbl (T - dt) = D)"
      using da inv t1 by simp
    have p6: "countdown (dbl (T - dt)) (map snd rest) \<le> 0" using Cons.prems(6) by (simp add: t)
    from Cons.IH [OF p1 d1 Cons.prems(3) False p5 p6]
    obtain st' where st': "Player_updates rand rest s1 = Some st'" "\<not> dashActive (player st')"
      "invulnerable (player st') = dbl (D - snd (last rest))"
      and pre: "\<And>k. 0 < k \<Longrightarrow> k < length rest \<Longrightarrow>
         \<exists>u. Player_updates rand (take k rest) s1 = Some u \<and> dashActive (player u)
              \<and> invulnerable (player u) = D"
      by blast
    have "\<exists>u. Player_updates rand (take k (t # rest)) s = Some u \<and> dashActive (player u)
              \<and> invulnerable (player u) = D" if k: "0 < k" "k < length (t # rest)" for k
    proof (cases k)
      case 0
      with k show ?thesis by simp
    next
      case (Suc k')
      show ?thesis
      proof (cases "k' = 0")
        case True
        then show ?thesis using Suc s1 da inv by (simp add: t)
      next
        case False
        then have "0 < k'" "k' < length rest" using k Suc by simp_all
        from pre [OF this] show ?thesis using Suc s1 by (simp add: t)
      qed
    qed
    then show ?thesis
      using st' s1 False by (simp add: t)
  qed
qed

text \<open>
  Updates of a player who is not dashing, with no shift key held: no dash starts, and each
  update takes its \<open>dt\<close> off a positive invulnerability timer.
\<close>

lemma idle_run:
  assumes "\<not> dashActive (player s)"
    and "\<forall>t\<in>set ticks. \<not> (keys (fst t) ''shift'' \<or> keys (fst t) ''shiftleft''
                            \<or> keys (fst t) ''shiftright'')"
  shows "\<exists>u. Player_updates rand ticks s = Some u \<and> \<not> dashActive (player u)
           \<and> invulnerable (player u) = wearOff (invulnerable (player s)) (map snd ticks)"
  using assms
proof (induction ticks arbitrary: s)
  case Nil
  then show ?case by simp
next
  case (Cons t rest)
  obtain inp dt where t: "t = (inp, dt)" by (cases t)
  obtain s1 where s1: "Player_update rand inp dt s = Some s1"
    using Player_update_total by blast
  define trig where "trig = dashTriggered inp (updateDashCooldown dt (player s))"
  have ntrig: "\<not> trig" using Cons.prems(2) by (simp add: trig_def dashTriggered_def t)
  have T: "dashTimer (player s) = (if trig then dashDuration (player s) else dashTimer (player s))"
    using ntrig by simp
  have v: "invulnerable (player s) =
      (if trig then dashDuration (player s) else invulnerable (player s))"
    using ntrig by simp
  note step = Player_update_dash [OF s1 trig_def T v]
  have a1: "\<not> dashActive (player s1)" using step(1) ntrig Cons.prems(1) by simp
  have i1: "invulnerable (player s1) =
      (if invulnerable (player s) > 0 then dbl (invulnerable (player s) - dt)
       else invulnerable (player s))"
    using step(3) a1 by simp
  have "\<forall>t\<in>set rest. \<not> (keys (fst t) ''shift'' \<or> keys (fst t) ''shiftleft''
                            \<or> keys (fst t) ''shiftright'')"
    using Cons.prems(2) by simp
  from Cons.IH [OF a1 this] obtain u where
    "Player_updates rand rest s1 = Some u" "\<not> dashActive (player u)"
    "invulnerable (player u) = wearOff (invulnerable (player s1)) (map snd rest)"
    by blast
  then show ?case using s1 by (simp add: t i1)
qed

text \<open>
  Claim C10. While the dash is active \<open>Player.update\<close> does not decrement the invulnerability
  timer: the decrement runs only in an update that ends with \<open>dashActive\<close> false. Take a dash
  triggered by the first of the updates \<open>dash\<close> and ended by the last of them (the dash timer,
  counted down in doubles, is positive after each of them but the last), and any further
  updates \<open>after\<close> with no shift key held. After every update of the dash but the last the
  player is dashing and the invulnerability timer still equals \<open>dashDuration\<close>. After the last
  one the dash has ended and the timer is \<open>W\<close>, \<open>dashDuration\<close> less that one \<open>dt\<close>. After any
  number of the further updates the player is not dashing, the timer is \<open>W\<close> counted down by
  their \<open>dt\<close>, and as long as that is positive \<open>takeDamage\<close> is blocked: the protection
  outlasts the dash by the dash duration less one \<open>dt\<close>.
\<close>

theorem dash_keeps_invulnerability:
  assumes "dashTriggered inp0 (player st)"
    and "dash = (inp0, dt0) # rest"
    and "D = dashDuration (player st)" and "0 < D"
    and "positiveThrough D (map snd (butlast dash))"
    and "countdown D (map snd dash) \<le> 0"
    and "W = dbl (D - snd (last dash))"
    and "\<forall>t\<in>set after. \<not> (keys (fst t) ''shift'' \<or> keys (fst t) ''shiftleft''
                            \<or> keys (fst t) ''shiftright'')"
  shows "(\<forall>k. 0 < k \<and> k < length dash \<longrightarrow>
            (\<exists>u. Player_updates rand (take k dash) st = Some u \<and> dashActive (player u)
                 \<and> invulnerable (player u) = D))
       \<and> (\<exists>st'. Player_updates rand dash st = Some st' \<and> \<not> dashActive (player st')
                 \<and> invulnerable (player st') = W)
       \<and> (\<forall>m\<le>length after.
            \<exists>u. Player_updates rand (dash @ take m after) st = Some u \<and> \<not> dashActive (player u)
               \<and> invulnerable (player u) = wearOff W (map snd (take m after))
               \<and> (0 < wearOff W (map snd (take m after)) \<longrightarrow>
                    takeDamage rand amount u = (False, u)))"
proof -
  have "updateDashCooldown dt0 (player st) = player st"
    using assms(1) by (simp add: dashTriggered_def updateDashCooldown_def)
  then have start: "(dashActive (player st) \<and> invulnerable (player st) = D \<and> dashTimer (player st) = D)
      \<or> (dashTriggered (fst (hd dash)) (updateDashCooldown (snd (hd dash)) (player st)) \<and> D = D)"
    using assms(1,2) by simp
  have ne: "dash \<noteq> []" using assms(2) by simp
  from dash_run [OF start assms(3) [symmetric] assms(4) ne assms(5) assms(6), of rand]
  obtain st' where st': "Player_updates rand dash st = Some st'" "\<not> dashActive (player st')"
    "invulnerable (player st') = W"
    and during: "\<forall>k. 0 < k \<and> k < length dash \<longrightarrow>
                 (\<exists>u. Player_updates rand (take k dash) st = Some u \<and> dashActive (player u)
                      \<and> invulnerable (player u) = D)"
    unfolding assms(7) by blast
  have later: "\<exists>u. Player_updates rand (dash @ take m after) st = Some u \<and> \<not> dashActive (player u)
               \<and> invulnerable (player u) = wearOff W (map snd (take m after))
               \<and> (0 < wearOff W (map snd (take m after)) \<longrightarrow>
                    takeDamage rand amount u = (False, u))" for m
  proof -
    have "\<forall>t\<in>set (take m after). \<not> (keys (fst t) ''shift'' \<or> keys (fst t) ''shiftleft''
                            \<or> keys (fst t) ''shiftright'')"
      using assms(8) by (auto dest: in_set_takeD)
    from idle_run [OF st'(2) this, of rand] obtain u where
      u: "Player_updates rand (take m after) st' = Some u" "\<not> dashActive (player u)"
      "invulnerable (player u) = wearOff W (map snd (take m after))"
      unfolding st'(3) by blast
    have "Player_updates rand (dash @ take m after) st = Some u"
      by (simp add: Player_updates_append st'(1) u(1))
    moreover have "takeDamage rand amount u = (False, u)"
      if "0 < wearOff W (map snd (take m after))"
      using that u(3) by (simp add: takeDamage_def)
    ultimately show ?thesis using u(2,3) by blast
  qed
  from during st' later show ?thesis by blast
qed

text \<open>
  The theorem on a fresh game, nine updates of 25 ms with shift held (dash duration 0.2 s) and
  six more with no key held. In doubles the dash timer is still positive after the eighth
  update (\<open>5 / 2 ^ 57\<close>), so the dash ends in the ninth, with 0.175 s of invulnerability left;
  after the six further updates 0.025 s are left and damage is still blocked.
\<close>

theorem dash_keeps_invulnerability_witness:
  "(\<exists>u. Player_updates (\<lambda>n. 0) (take 8 dashRun) game0 = Some u \<and> dashActive (player u)
        \<and> invulnerable (player u) = dbl 0.2)
   \<and> (\<exists>st'. Player_updates (\<lambda>n. 0) dashRun game0 = Some st' \<and> \<not> dashActive (player st')
        \<and> invulnerable (player st') = 6305039478318695 / 36028797018963968)
   \<and> (\<exists>u. Player_updates (\<lambda>n. 0) (dashRun @ afterRun) game0 = Some u \<and> \<not> dashActive (player u)
        \<and> invulnerable (player u) = 1801439850948201 / 72057594037927936
        \<and> takeDamage (\<lambda>n. 0) 10 u = (False, u))"
proof -
  have h1: "dashTriggered (inputAt [''shift''] 25) (player game0)"
    by (simp add: dashTriggered_def game0_player Player_new_def inputAt_def)
  have h2: "dashRun = (inputAt [''shift''] 25, dbl 0.025) # tl dashRun"
    by (simp add: dashRun_def)
  have h3: "dbl 0.2 = dashDuration (player game0)" by (simp add: game0_player Player_new_def)
  have d: "dbl 0.2 = 3602879701896397 / 2 ^ 54" "dbl 0.025 = 3602879701896397 / 2 ^ 57"
    by (simp_all add: dbl_eval)
  have h4: "0 < dbl 0.2" unfolding d by simp
  have h5: "positiveThrough (dbl 0.2) (map snd (butlast dashRun))"
    unfolding d dashRun_def by (simp add: d dbl_eval)
  have h6: "countdown (dbl 0.2) (map snd dashRun) \<le> 0"
    unfolding d dashRun_def by (simp add: d dbl_eval)
  have h7: "6305039478318695 / 36028797018963968 = dbl (dbl 0.2 - snd (last dashRun))"
    unfolding d dashRun_def by (simp add: d dbl_eval)
  have h8: "\<forall>t\<in>set afterRun. \<not> (keys (fst t) ''shift'' \<or> keys (fst t) ''shiftleft''
                            \<or> keys (fst t) ''shiftright'')"
    by (simp add: afterRun_def inputAt_def)
  have w: "wearOff (6305039478318695 / 36028797018963968) (map snd afterRun) = 1801439850948201 / 72057594037927936"
    unfolding afterRun_def by (simp add: d dbl_eval)
  have l: "length dashRun = 9" "length afterRun = 6" by (simp_all add: dashRun_def afterRun_def)
  note r = dash_keeps_invulnerability [OF h1 h2 h3 h4 h5 h6 h7 h8, of "\<lambda>n. 0" 10]
  from r have a: "\<exists>u. Player_updates (\<lambda>n. 0) (take 8 dashRun) game0 = Some u \<and> dashActive (player u)
        \<and> invulnerable (player u) = dbl 0.2"
    by (simp add: l)
  from r have b: "\<exists>st'. Player_updates (\<lambda>n. 0) dashRun game0 = Some st' \<and> \<not> dashActive (player st')
        \<and> invulnerable (player st') = 6305039478318695 / 36028797018963968"
    by blast
  from r have "\<forall>m\<le>length afterRun.
            \<exists>u. Player_updates (\<lambda>n. 0) (dashRun @ take m afterRun) game0 = Some u \<and> \<not> dashActive (player u)
               \<and> invulnerable (player u) = wearOff (6305039478318695 / 36028797018963968) (map snd (take m afterRun))
               \<and> (0 < wearOff (6305039478318695 / 36028797018963968) (map snd (take m afterRun)) \<longrightarrow>
                    takeDamage (\<lambda>n. 0) 10 u = (False, u))"
    by blast
  from this [rule_format, of 6] have c: "\<exists>u. Player_updates (\<lambda>n. 0) (dashRun @ afterRun) game0 = Some u \<and> \<not> dashActive (player u)
        \<and> invulnerable (player u) = 1801439850948201 / 72057594037927936
        \<and> takeDamage (\<lambda>n. 0) 10 u = (False, u)"
    by (simp add: l w)
  from a b c show ?thesis by blast
qed

lemma afterActivation_still:
  assumes "moveKeys inp = (0, 0)" and "\<not> dashActive p"
  shows "\<exists>p'. afterActivation inp dt p = Some p'
           \<and> p_x p' = max (p_radius p) (min (canvasW inp - p_radius p) (p_x p))
           \<and> p_y p' = max (p_radius p) (min (canvasH inp - p_radius p) (p_y p))"
  using assms
  by (simp add: afterActivation_def normalMovement_def updateRecoil_eq dashMovement_sel
      updateInvulnerability_def aimAtMouse_def keepInBounds_def Let_def dashMovement_def)

text \<open>
  Claim C9. Every normalisation of a movement or pursuit vector is guarded: \<open>Player.update\<close>
  and \<open>Enemy.update\<close> always return without a division by zero; with a zero combined input
  vector the movement block leaves the player as he is (no normalisation is attempted), so
  that without a dash the update only clamps the position into the arena; and an enemy
  exactly at the player's position does not move.
\<close>

theorem normalization_guarded:
  "(\<exists>st'. Player_update rand inp dt st = Some st')
   \<and> (\<exists>e'. Enemy_update dt pl e = Some e')
   \<and> (moveKeys inp = (0, 0) \<longrightarrow> normalMovement inp dt p = Some p)
   \<and> (moveKeys inp = (0, 0) \<and> \<not> dashActive (player st)
        \<and> \<not> dashTriggered inp (updateDashCooldown dt (player st)) \<longrightarrow>
        (\<exists>st'. Player_update rand inp dt st = Some st'
           \<and> p_x (player st') =
               max (p_radius (player st)) (min (canvasW inp - p_radius (player st)) (p_x (player st)))
           \<and> p_y (player st') =
               max (p_radius (player st)) (min (canvasH inp - p_radius (player st)) (p_y (player st)))))
   \<and> (e_x e = p_x pl \<and> e_y e = p_y pl \<longrightarrow>
        (\<exists>e'. Enemy_update dt pl e = Some e' \<and> e_x e' = e_x e \<and> e_y e' = e_y e))"
proof -
  have a: "\<exists>st'. Player_update rand inp dt st = Some st'" by (rule Player_update_total)
  have b: "\<exists>e'. Enemy_update dt pl e = Some e'" by (rule Enemy_update_total)
  have c: "normalMovement inp dt p = Some p" if "moveKeys inp = (0, 0)"
    using that by (simp add: normalMovement_def)
  have d: "\<exists>st'. Player_update rand inp dt st = Some st'
           \<and> p_x (player st') =
               max (p_radius (player st)) (min (canvasW inp - p_radius (player st)) (p_x (player st)))
           \<and> p_y (player st') =
               max (p_radius (player st)) (min (canvasH inp - p_radius (player st)) (p_y (player st)))"
    if h: "moveKeys inp = (0, 0)" "\<not> dashActive (player st)"
      "\<not> dashTriggered inp (updateDashCooldown dt (player st))"
  proof -
    let ?p0 = "updateDashCooldown dt (player st)"
    have act: "dashActivation rand inp (st\<lparr>player := ?p0\<rparr>) = Some (st\<lparr>player := ?p0\<rparr>)"
      using h(3) by (simp add: dashActivation_idle)
    have "\<not> dashActive ?p0" using h(2) by (simp add: updateDashCooldown_sel)
    from afterActivation_still [OF h(1) this, of dt] obtain p' where
      p': "afterActivation inp dt ?p0 = Some p'"
      "p_x p' = max (p_radius ?p0) (min (canvasW inp - p_radius ?p0) (p_x ?p0))"
      "p_y p' = max (p_radius ?p0) (min (canvasH inp - p_radius ?p0) (p_y ?p0))"
      by blast
    have "p_radius ?p0 = p_radius (player st)" "p_x ?p0 = p_x (player st)" "p_y ?p0 = p_y (player st)"
      by (simp_all add: updateDashCooldown_def)
    with p' act show ?thesis by (simp add: Player_update_alt)
  qed
  have e: "\<exists>e'. Enemy_update dt pl e = Some e' \<and> e_x e' = e_x e \<and> e_y e' = e_y e"
    if "e_x e = p_x pl \<and> e_y e = p_y pl"
    using that Enemy_update_same_point [of e pl dt] by blast
  from a b c d e show ?thesis by blast
qed

text \<open>
  The theorem on a fresh game with no key held, and on an enemy at the player's position
  (400, 300).
\<close>

theorem normalization_guarded_witness:
  "normalMovement (inputAt [] 16) 0.016 (player game0) = Some (player game0)
   \<and> (\<exists>st'. Player_update (\<lambda>n. 0) (inputAt [] 16) 0.016 game0 = Some st'
         \<and> p_x (player st') = 400 \<and> p_y (player st') = 300)
   \<and> (\<exists>e'. Enemy_update 0.016 (player game0)
              \<lparr>e_x = 400, e_y = 300, e_radius = 12, e_speed = 80, e_hp = 1, e_hitFlash = 0\<rparr> = Some e'
         \<and> e_x e' = 400 \<and> e_y e' = 300)"
proof -
  have mk: "moveKeys (inputAt [] 16) = (0, 0)" by (simp add: moveKeys_def inputAt_def)
  have nd: "\<not> dashActive (player game0)" by (simp add: game0_player Player_new_def)
  have nt: "\<not> dashTriggered (inputAt [] 16) (updateDashCooldown 0.016 (player game0))"
    by (simp add: dashTriggered_def inputAt_def)
  have pos: "p_x (player game0) = 400" "p_y (player game0) = 300" "p_radius (player game0) = 15"
    by (simp_all add: game0_player Player_new_def)
  show ?thesis
    using normalization_guarded [of "\<lambda>n. 0" "inputAt [] 16" "0.016" game0 "player game0"
        "\<lparr>e_x = 400, e_y = 300, e_radius = 12, e_speed = 80, e_hp = 1, e_hitFlash = 0\<rparr>"
        "player game0"] mk nd nt
    by (simp add: pos inputAt_def)
qed

section \<open>What the collision pass keeps\<close>

lemma keeps_refl: "keeps st st"
  by (simp add: keeps_def sameWave_def)

lemma keeps_trans: "keeps a b \<Longrightarrow> keeps b c \<Longrightarrow> keeps a c"
  by (simp add: keeps_def sameWave_def)

lemma spec_hit_keeps: "keeps st (spec_hit rand e st)"
  by (simp add: keeps_def sameWave_def healthy_def spec_hit_def spawnParticles_eq addShake_def
      playSound_eq Let_def)

lemma bulletHit_keeps: "keeps st (bulletHit rand i j st)"
proof -
  have "keeps st (st\<lparr>bullets := splice1 i (bullets st), enemies := splice1 j (enemies st)\<rparr>)"
    by (simp add: keeps_def sameWave_def healthy_def)
  then show ?thesis
    unfolding bulletHit_eq by (rule keeps_trans) (rule spec_hit_keeps)
qed

lemma scanEnemies_keeps: "keeps st (scanEnemies rand i n st)"
  by (induction n) (simp_all add: keeps_refl bulletHit_keeps)

lemma bulletsVsEnemies_from_keeps: "keeps st (bulletsVsEnemies_from rand n st)"
proof (induction n arbitrary: st)
  case 0
  show ?case by (simp add: keeps_refl)
next
  case (Suc n)
  have "keeps st (scanEnemies rand n (length (enemies st)) st)" by (rule scanEnemies_keeps)
  then show ?case
    using Suc.IH by (auto intro: keeps_trans)
qed

lemma takeDamage_keeps: "0 \<le> amount \<Longrightarrow> keeps st (snd (takeDamage rand amount st))"
  by (simp add: takeDamage_def keeps_def sameWave_def healthy_def addShake_def playSound_eq Let_def)

lemma playerHit_keeps: "keeps st (playerHit rand i st)"
proof -
  obtain died st1 where td: "takeDamage rand 10 st = (died, st1)" by (cases "takeDamage rand 10 st")
  have k1: "keeps st st1" using takeDamage_keeps [of 10 st rand] td by simp
  define st2 where "st2 = (if died then
                   (spawnParticles rand (p_x (player st1)) (p_y (player st1)) 30 st1)
                     \<lparr>gameState := GameOver\<rparr>
                 else st1)"
  have k2: "keeps st1 st2"
    by (simp add: st2_def keeps_def sameWave_def healthy_def spawnParticles_eq)
  have "playerHit rand i st =
     playSound rand 150 0.08 ''square'' 0.4 0
       ((addShake rand 8
          ((spawnParticles rand (e_x (enemies st ! i)) (e_y (enemies st ! i)) 15 st2)
             \<lparr>enemies := splice1 i (enemies st2), combo := 0, comboTimer := 0,
               score := score st2 + 10\<rparr>))\<lparr>hitstop := 0.03\<rparr>)"
    by (simp add: playerHit_def td st2_def Let_def spawnParticles_eq addShake_def playSound_eq)
  then have k3: "keeps st2 (playerHit rand i st)"
    by (simp add: keeps_def sameWave_def healthy_def spawnParticles_eq addShake_def playSound_eq)
  from k1 k2 k3 show ?thesis by (blast intro: keeps_trans)
qed

lemma enemiesVsPlayer_from_keeps: "keeps st (enemiesVsPlayer_from rand n st)"
proof (induction n arbitrary: st)
  case 0
  show ?case by (simp add: keeps_refl)
next
  case (Suc n)
  have "keeps st (if touches (enemies st ! n) (player st) then playerHit rand n st else st)"
    by (simp add: keeps_refl playerHit_keeps)
  then show ?case
    using Suc.IH by (auto intro: keeps_trans)
qed

lemma checkCollisions_keeps: "keeps st (checkCollisions rand st)"
  unfolding checkCollisions_def bulletsVsEnemies_def enemiesVsPlayer_def
  by (rule keeps_trans [OF bulletsVsEnemies_from_keeps enemiesVsPlayer_from_keeps])

section \<open>The normal tick\<close>

lemma decayShake_keeps: "keeps st (decayShake st) \<and> enemies (decayShake st) = enemies st"
  by (simp add: decayShake_def keeps_def sameWave_def healthy_def)

lemma updateComboTimer_keeps:
  "keeps st (updateComboTimer dt st) \<and> enemies (updateComboTimer dt st) = enemies st"
  by (simp add: updateComboTimer_def keeps_def sameWave_def healthy_def Let_def)

lemma Player_update_keeps:
  assumes "Player_update rand inp dt st = Some st'"
  shows "keeps st st' \<and> enemies st' = enemies st"
proof -
  from Player_update_frame [OF assms] obtain p ps s sx sy sn where
    "st' = st\<lparr>player := p, particles := ps, seed := s, screenShake_x := sx,
                    screenShake_y := sy, sounds := sn\<rparr>"
    "p_hp p = p_hp (player st)" "maxHp p = maxHp (player st)"
    by blast
  then show ?thesis by (simp add: keeps_def sameWave_def healthy_def)
qed

lemma shooting_keeps: "keeps st (shooting rand inp st) \<and> enemies (shooting rand inp st) = enemies st"
  by (simp add: shooting_def keeps_def sameWave_def healthy_def playSound_eq Let_def)

lemma updateBullets_keeps:
  "keeps st (updateBullets inp dt st) \<and> enemies (updateBullets inp dt st) = enemies st"
  by (simp add: updateBullets_def keeps_def sameWave_def healthy_def)

text \<open>
  After the spawn step the wave cannot advance: with a positive target population, an empty
  enemy array and an expired spawn timer make the spawn step itself add an enemy.
\<close>

lemma spawning_blocks_wave:
  assumes "0 < enemiesPerWave st"
  shows "\<not> (waveBannerTime (spawning rand inp dt st) \<le> 0
            \<and> enemies (spawning rand inp dt st) = []
            \<and> enemySpawnTimer (spawning rand inp dt st) \<le> 0)"
  using assms by (auto simp: spawning_def spawnEnemy_def Let_def)

lemma spawning_frame:
  "sameWave st (spawning rand inp dt st) \<and> (healthy st \<longrightarrow> healthy (spawning rand inp dt st))
   \<and> enemySpawnTimer (spawning rand inp dt st) =
       (if waveBannerTime st \<le> 0 \<and> enemySpawnTimer st - dt \<le> 0
           \<and> int (length (enemies st)) < enemiesPerWave st
        then enemySpawnRate st else enemySpawnTimer st - dt)"
  by (simp add: spawning_def spawnEnemy_def Let_def sameWave_def healthy_def)

lemma waveProgress_blocked:
  assumes "\<not> (waveBannerTime st \<le> 0 \<and> enemies st = [] \<and> enemySpawnTimer st \<le> 0)"
  shows "waveProgress rand dt st =
           st\<lparr>waveBannerTime :=
                 (if waveBannerTime st > 0 then waveBannerTime st - dt else waveBannerTime st)\<rparr>"
  using assms by (auto simp: waveProgress_def)

lemma waveProgress_healthy: "healthy st \<Longrightarrow> healthy (waveProgress rand dt st)"
  by (simp add: waveProgress_def healthy_def playSound_eq Let_def)

text \<open>The wave variables and the bounds across one normal tick.\<close>

lemma normalTick_effect:
  assumes "normalTick rand inp dt st = Some st'"
  shows "healthy st \<longrightarrow> healthy st'"
    and "0 < enemiesPerWave st \<Longrightarrow>
         wave st' = wave st \<and> enemiesPerWave st' = enemiesPerWave st
         \<and> enemySpawnRate st' = enemySpawnRate st
         \<and> waveBannerTime st' =
             (if waveBannerTime st > 0 then waveBannerTime st - dt else waveBannerTime st)
         \<and> enemySpawnTimer st' =
             (if waveBannerTime st \<le> 0 \<and> enemySpawnTimer st - dt \<le> 0
                 \<and> int (length (enemies st)) < enemiesPerWave st
              then enemySpawnRate st else enemySpawnTimer st - dt)"
proof -
  let ?a = "updateComboTimer dt (decayShake st)"
  from assms obtain st1 es where st1: "Player_update rand inp dt ?a = Some st1"
    and es: "updateEnemies dt
               (player (spawning rand inp dt (updateBullets inp dt (shooting rand inp st1))))
               (enemies (spawning rand inp dt (updateBullets inp dt (shooting rand inp st1))))
             = Some es"
    and st': "st' = checkCollisions rand (waveProgress rand dt (updateParticles dt
                ((spawning rand inp dt (updateBullets inp dt (shooting rand inp st1)))
                   \<lparr>enemies := es\<rparr>)))"
    by (auto simp: normalTick_def Let_def split: option.splits)
  let ?b = "updateBullets inp dt (shooting rand inp st1)"
  let ?c = "spawning rand inp dt ?b"
  let ?d = "updateParticles dt (?c\<lparr>enemies := es\<rparr>)"
  have ka: "keeps st ?a \<and> enemies ?a = enemies st"
    using decayShake_keeps [of st] updateComboTimer_keeps [of "decayShake st" dt]
    by (auto intro: keeps_trans)
  have k1: "keeps ?a st1 \<and> enemies st1 = enemies ?a" by (rule Player_update_keeps [OF st1])
  have kb: "keeps st1 ?b \<and> enemies ?b = enemies st1"
    using shooting_keeps [of st1 rand inp] updateBullets_keeps [of "shooting rand inp st1" inp dt]
    by (auto intro: keeps_trans)
  have kst: "keeps st ?b" "enemies ?b = enemies st"
    using ka k1 kb by (auto intro: keeps_trans)
  have len: "length es = length (enemies ?c)"
    using updateEnemies_total [of dt "player ?c" "enemies ?c"] es by auto
  have kc: "keeps (waveProgress rand dt ?d) st'" unfolding st' by (rule checkCollisions_keeps)
  show "healthy st \<longrightarrow> healthy st'"
  proof
    assume "healthy st"
    then have "healthy ?b" using kst(1) by (simp add: keeps_def)
    then have "healthy ?c" using spawning_frame [of ?b rand inp dt] by simp
    then have "healthy ?d" by (simp add: healthy_def updateParticles_def)
    then have "healthy (waveProgress rand dt ?d)" by (rule waveProgress_healthy)
    then show "healthy st'" using kc by (simp add: keeps_def)
  qed
  show "wave st' = wave st \<and> enemiesPerWave st' = enemiesPerWave st
         \<and> enemySpawnRate st' = enemySpawnRate st
         \<and> waveBannerTime st' =
             (if waveBannerTime st > 0 then waveBannerTime st - dt else waveBannerTime st)
         \<and> enemySpawnTimer st' =
             (if waveBannerTime st \<le> 0 \<and> enemySpawnTimer st - dt \<le> 0
                 \<and> int (length (enemies st)) < enemiesPerWave st
              then enemySpawnRate st else enemySpawnTimer st - dt)"
    if pos: "0 < enemiesPerWave st"
  proof -
    have sb: "sameWave st ?b" "enemySpawnTimer ?b = enemySpawnTimer st"
      using kst(1) by (simp_all add: keeps_def)
    have posb: "0 < enemiesPerWave ?b" using sb(1) pos by (simp add: sameWave_def)
    note blk = spawning_blocks_wave [OF posb, of rand inp dt]
    note fr = spawning_frame [of ?b rand inp dt]
    have "es = [] \<longleftrightarrow> enemies ?c = []" using len by auto
    then have blkd: "\<not> (waveBannerTime ?d \<le> 0 \<and> enemies ?d = [] \<and> enemySpawnTimer ?d \<le> 0)"
      using blk by (simp add: updateParticles_def)
    have wp: "waveProgress rand dt ?d =
           ?d\<lparr>waveBannerTime :=
                 (if waveBannerTime ?d > 0 then waveBannerTime ?d - dt else waveBannerTime ?d)\<rparr>"
      by (rule waveProgress_blocked [OF blkd])
    have d: "wave ?d = wave st" "enemiesPerWave ?d = enemiesPerWave st"
      "enemySpawnRate ?d = enemySpawnRate st" "waveBannerTime ?d = waveBannerTime st"
      "enemySpawnTimer ?d = (if waveBannerTime st \<le> 0 \<and> enemySpawnTimer st - dt \<le> 0
                 \<and> int (length (enemies st)) < enemiesPerWave st
              then enemySpawnRate st else enemySpawnTimer st - dt)"
      using fr sb kst(2) by (simp_all add: updateParticles_def sameWave_def)
    have "wave (waveProgress rand dt ?d) = wave st"
      "enemiesPerWave (waveProgress rand dt ?d) = enemiesPerWave st"
      "enemySpawnRate (waveProgress rand dt ?d) = enemySpawnRate st"
      "waveBannerTime (waveProgress rand dt ?d) =
         (if waveBannerTime st > 0 then waveBannerTime st - dt else waveBannerTime st)"
      "enemySpawnTimer (waveProgress rand dt ?d) = 
         (if waveBannerTime st \<le> 0 \<and> enemySpawnTimer st - dt \<le> 0
                 \<and> int (length (enemies st)) < enemiesPerWave st
              then enemySpawnRate st else enemySpawnTimer st - dt)"
      unfolding wp using d by simp_all
    then show ?thesis using kc by (simp add: keeps_def sameWave_def)
  qed
qed

section \<open>gameLoop and the reachable states\<close>

lemma normalTick_total: "\<exists>st'. normalTick rand inp dt st = Some st'"
proof -
  obtain st1 where a: "Player_update rand inp dt (updateComboTimer dt (decayShake st)) = Some st1"
    using Player_update_total by blast
  let ?c = "spawning rand inp dt (updateBullets inp dt (shooting rand inp st1))"
  obtain es where "updateEnemies dt (player ?c) (enemies ?c) = Some es"
    using updateEnemies_total by blast
  with a show ?thesis by (simp add: normalTick_def Let_def)
qed

lemma gameLoop_total: "\<exists>st'. gameLoop rand inp st = Some st'"
  using normalTick_total [of rand inp "min ((currentTime inp - lastTime st) / 1000) 0.033"
      "st\<lparr>lastTime := currentTime inp\<rparr>"]
  by (auto simp: gameLoop_def Let_def)

lemma hitstopTick_eq:
  "hitstopTick dt st =
     st\<lparr>hitstop := hitstop st - dt,
        screenShake_x := screenShake_x st * shakeDecay,
        screenShake_y := screenShake_y st * shakeDecay,
        enemies := map (\<lambda>enemy. if e_hitFlash enemy > 0
                                  then enemy\<lparr>e_hitFlash := e_hitFlash enemy - dt\<rparr>
                                  else enemy) (enemies st),
        player := (player st)\<lparr>
          recoilOffset := (if recoilOffset (player st) > 0
                           then max 0 (recoilOffset (player st) - dt * 20)
                           else recoilOffset (player st)),
          ghostAfterimages := fadeGhosts dt (ghostAfterimages (player st))\<rparr>\<rparr>"
  by (simp add: hitstopTick_def Let_def updateRecoil_eq)

lemma gameLoop_cases:
  assumes "gameLoop rand inp st = Some st'"
    and "dt = min ((currentTime inp - lastTime st) / 1000) 0.033"
    and "st0 = st\<lparr>lastTime := currentTime inp\<rparr>"
  shows "(\<not> (gameState st = Playing \<and> \<not> paused st) \<and> st' = st0)
       \<or> (gameState st = Playing \<and> \<not> paused st \<and> hitstop st > 0 \<and> st' = hitstopTick dt st0)
       \<or> (gameState st = Playing \<and> \<not> paused st \<and> \<not> hitstop st > 0
            \<and> normalTick rand inp dt st0 = Some st')"
proof (cases "gameState st = Playing \<and> \<not> paused st")
  case False
  then have "gameLoop rand inp st = Some st0"
    unfolding gameLoop_def Let_def assms(3) by auto
  with assms(1) False show ?thesis by simp
next
  case True
  show ?thesis
  proof (cases "hitstop st > 0")
    case h: True
    have "gameLoop rand inp st = Some (hitstopTick dt st0)"
      unfolding gameLoop_def Let_def assms(2,3) using True h by simp
    with assms(1) True h show ?thesis by simp
  next
    case h: False
    have "gameLoop rand inp st = normalTick rand inp dt st0"
      unfolding gameLoop_def Let_def assms(2,3) using True h by simp
    with assms(1) True h show ?thesis by simp
  qed
qed

lemma hitstopTick_effect:
  "healthy st \<Longrightarrow> healthy (hitstopTick dt st)" "firstWave st \<Longrightarrow> firstWave (hitstopTick dt st)"
  unfolding hitstopTick_eq by (simp_all add: healthy_def firstWave_def)

lemma gameLoop_effect:
  assumes "gameLoop rand inp st = Some st'"
  shows "healthy st \<longrightarrow> healthy st'"
    and "firstWave st \<longrightarrow> firstWave st'"
proof -
  define dt where "dt = min ((currentTime inp - lastTime st) / 1000) 0.033"
  define st0 where "st0 = st\<lparr>lastTime := currentTime inp\<rparr>"
  have h0: "healthy st0 = healthy st" "firstWave st0 = firstWave st"
    by (simp_all add: healthy_def firstWave_def st0_def)
  from gameLoop_cases [OF assms dt_def st0_def]
  consider (idle) "st' = st0" | (stop) "st' = hitstopTick dt st0"
    | (tick) "normalTick rand inp dt st0 = Some st'"
    by blast
  then have "(healthy st \<longrightarrow> healthy st') \<and> (firstWave st \<longrightarrow> firstWave st')"
  proof cases
    case idle
    then show ?thesis using h0 by simp
  next
    case stop
    then show ?thesis
      using h0 hitstopTick_effect [of st0 dt] by simp
  next
    case tick
    note e = normalTick_effect [OF tick]
    have "firstWave st'" if "firstWave st"
    proof -
      have f: "firstWave st0" using that h0 by simp
      then have "0 < enemiesPerWave st0" by (simp add: firstWave_def)
      from e(2) [OF this] f show ?thesis by (simp add: firstWave_def)
    qed
    then show ?thesis using e(1) h0 by simp
  qed
  then show "healthy st \<longrightarrow> healthy st'" and "firstWave st \<longrightarrow> firstWave st'" by simp_all
qed

lemma restart_effect: "healthy (restart inp st)" "firstWave st \<Longrightarrow> firstWave (restart inp st)"
  by (simp_all add: restart_def healthy_def firstWave_def Player_new_def)

lemma keydown_effect:
  "healthy st \<Longrightarrow> healthy (keydown key inp st)"
  "firstWave st \<Longrightarrow> firstWave (keydown key inp st)"
  by (simp_all add: keydown_def restart_def healthy_def firstWave_def Player_new_def Let_def)

lemma initGame_effect: "healthy (initGame inp au t0)" "firstWave (initGame inp au t0)"
  by (simp_all add: initGame_def healthy_def firstWave_def Player_new_def)

lemma reachable_healthy: "reachable rand st \<Longrightarrow> healthy st"
proof (induction rule: reachable.induct)
  case (reach_init inp au t0)
  show ?case by (rule initGame_effect)
next
  case (reach_tick st inp st')
  then show ?case using gameLoop_effect(1) by blast
next
  case (reach_key st key inp)
  then show ?case by (simp add: keydown_effect)
qed

lemma reachable_firstWave: "reachable rand st \<Longrightarrow> firstWave st"
proof (induction rule: reachable.induct)
  case (reach_init inp au t0)
  show ?case by (rule initGame_effect)
next
  case (reach_tick st inp st')
  then show ?case using gameLoop_effect(2) by blast
next
  case (reach_key st key inp)
  then show ?case by (simp add: keydown_effect)
qed

text \<open>
  Claim C2. In every reachable state, that is after any sequence of ticks and key presses
  (restart among them) from the initial state, \<open>0 \<le> player.hp \<le> player.maxHp\<close> and
  \<open>combo \<ge> 0\<close>: neither \<open>takeDamage\<close>, nor \<open>checkCollisions\<close>, nor the expiry of the combo
  timer, nor \<open>restart\<close> breaks these bounds.
\<close>

theorem hp_and_combo_bounds:
  "reachable rand st \<Longrightarrow>
   0 \<le> p_hp (player st) \<and> p_hp (player st) \<le> maxHp (player st) \<and> 0 \<le> combo st"
  using reachable_healthy [of rand st] by (simp add: healthy_def)

lemma game0_reachable: "reachable rand game0"
  unfolding game0_def by (rule reach_init)

text \<open>The theorem on the state after a restart and one tick of a fresh game.\<close>

theorem hp_and_combo_bounds_witness:
  "\<exists>st'. gameLoop (\<lambda>n. 0) (inputAt [] 16) (keydown ''r'' (inputAt [] 8) game0) = Some st'
      \<and> 0 \<le> p_hp (player st') \<and> p_hp (player st') \<le> maxHp (player st') \<and> 0 \<le> combo st'"
proof -
  obtain st' where t: "gameLoop (\<lambda>n. 0) (inputAt [] 16) (keydown ''r'' (inputAt [] 8) game0) = Some st'"
    using gameLoop_total by blast
  have "reachable (\<lambda>n. 0) st'"
    by (rule reach_tick [OF reach_key [OF game0_reachable] t])
  from hp_and_combo_bounds [OF this] t show ?thesis by blast
qed

text \<open>
  Claim C6. \<open>restart\<close>, called in any state whatever, yields the initial state on the
  current canvas in every variable but five: score 0, wave 1, no bullets, enemies or
  particles, a new player with full hit points, combo 0, spawn timer 0, target population
  \<open>enemiesPerWave = 5\<close>, announcement timer 0. The mute and debug switches, the model's record
  of random numbers drawn and sounds played, and the spawn interval \<open>enemySpawnRate\<close> are left
  as they were (and the audio context and the frame clock \<open>lastTime\<close>, which the initial state
  takes as given). \<open>restart\<close> does not assign \<open>enemySpawnRate\<close>; but after any sequence of
  ticks and key presses, that is in every reachable state, the spawn interval still has its
  initial value 2, so that there \<open>restart\<close> yields every counter at its initial value, the
  spawn interval included.
\<close>

theorem restart_resets:
  "restart inp st =
     (initGame inp (audio st) (lastTime st))
       \<lparr>muted := muted st, debug := debug st, seed := seed st, sounds := sounds st,
        enemySpawnRate := enemySpawnRate st\<rparr>
   \<and> (reachable rand st \<longrightarrow>
        enemySpawnRate st = 2 \<and>
        restart inp st =
          (initGame inp (audio st) (lastTime st))
            \<lparr>muted := muted st, debug := debug st, seed := seed st, sounds := sounds st\<rparr>)"
proof -
  have a: "restart inp st =
     (initGame inp (audio st) (lastTime st))
       \<lparr>muted := muted st, debug := debug st, seed := seed st, sounds := sounds st,
        enemySpawnRate := enemySpawnRate st\<rparr>"
    by (simp add: restart_def initGame_def)
  have b: "enemySpawnRate st = 2" if "reachable rand st"
    using reachable_firstWave [OF that] by (simp add: firstWave_def)
  have c: "restart inp st =
          (initGame inp (audio st) (lastTime st))
            \<lparr>muted := muted st, debug := debug st, seed := seed st, sounds := sounds st\<rparr>"
    if "reachable rand st"
    unfolding a using b [OF that] by (simp add: initGame_def)
  from a b c show ?thesis by blast
qed

text \<open>
  \<open>restart\<close> itself does not assign \<open>enemySpawnRate\<close>; the variable has its initial value in
  every reachable state because its only assignment is in the wave step, which no tick
  reaches.
\<close>

lemma restart_leaves_enemySpawnRate: "enemySpawnRate (restart inp st) = enemySpawnRate st"
  by (simp add: restart_def)

text \<open>The theorem on the state after the first tick of a fresh game, with fire held.\<close>

theorem restart_resets_witness:
  "\<exists>st'. gameLoop (\<lambda>n. 0) (inputAt ['' ''] 1000) game0 = Some st'
      \<and> score (restart (inputAt [] 1016) st') = 0 \<and> wave (restart (inputAt [] 1016) st') = 1
      \<and> bullets (restart (inputAt [] 1016) st') = []
      \<and> enemies (restart (inputAt [] 1016) st') = []
      \<and> particles (restart (inputAt [] 1016) st') = []
      \<and> p_hp (player (restart (inputAt [] 1016) st')) = 100
      \<and> combo (restart (inputAt [] 1016) st') = 0
      \<and> enemySpawnRate st' = 2
      \<and> enemySpawnRate (restart (inputAt [] 1016) st') = 2
      \<and> enemiesPerWave (restart (inputAt [] 1016) st') = 5
      \<and> waveBannerTime (restart (inputAt [] 1016) st') = 0"
proof -
  obtain st' where t: "gameLoop (\<lambda>n. 0) (inputAt ['' ''] 1000) game0 = Some st'"
    using gameLoop_total by blast
  have r: "reachable (\<lambda>n. 0) st'"
    by (rule reach_tick [OF game0_reachable t])
  from restart_resets [of "inputAt [] 1016" st' "\<lambda>n. 0"] r
  have e: "enemySpawnRate st' = 2" "restart (inputAt [] 1016) st' =
          (initGame (inputAt [] 1016) (audio st') (lastTime st'))
            \<lparr>muted := muted st', debug := debug st', seed := seed st', sounds := sounds st'\<rparr>"
    by blast+
  show ?thesis
    using t e by (simp add: initGame_def Player_new_def)
qed

section \<open>Wave progression\<close>

text \<open>No tick of a reachable state advances the wave.\<close>

lemma wave_never_advances:
  assumes "reachable rand st" and "gameLoop rand inp st = Some st'"
  shows "wave st = 1 \<and> wave st' = 1"
  using reachable_firstWave [OF assms(1)] reachable_firstWave [OF reach_tick [OF assms]]
  by (simp add: firstWave_def)

text \<open>
  The wave step by itself does what the specification says of a wave transition, and a
  positive announcement timer suppresses the spawn.
\<close>

lemma waveProgress_advance:
  assumes "waveBannerTime st \<le> 0" and "enemies st = []" and "enemySpawnTimer st \<le> 0"
  shows "wave (waveProgress rand dt st) = wave st + 1"
    and "enemiesPerWave (waveProgress rand dt st) = 5 + (wave st + 1) * 2"
    and "enemySpawnRate (waveProgress rand dt st) = max 0.5 (2 - real_of_int (wave st + 1) * 0.1)"
    and "waveBannerTime (waveProgress rand dt st) = waveBannerDuration"
  using assms by (simp_all add: waveProgress_def playSound_eq Let_def)

lemma spawning_suppressed:
  "waveBannerTime st > 0 \<Longrightarrow> enemies (spawning rand inp dt st) = enemies st"
  by (simp add: spawning_def Let_def)

lemma game0_fields:
  "gameState game0 = Playing" "paused game0 = False" "hitstop game0 = 0" "lastTime game0 = 0"
  "enemiesPerWave game0 = 5" "enemySpawnRate game0 = 2" "waveBannerTime game0 = 0"
  "enemySpawnTimer game0 = 0" "enemies game0 = []" "wave game0 = 1" "bullets game0 = []"
  "lastShotTime game0 = 0"
  by (simp_all add: game0_def initGame_def)

text \<open>
  Claim C5 says that a tick with announcement timer \<open>\<le> 0\<close>, no enemy and spawn timer \<open>\<le> 0\<close>
  increments the wave. The first tick of a fresh game is such a tick, and it leaves the wave
  at 1, the target population at 5, the spawn interval at 2 and the announcement timer at 0:
  the spawn step, which comes first, adds an enemy and sets the spawn timer to 2.
\<close>

theorem wave_stuck_on_fresh_game:
  "waveBannerTime game0 \<le> 0 \<and> enemies game0 = [] \<and> enemySpawnTimer game0 \<le> 0
   \<and> (\<exists>st'. gameLoop (\<lambda>n. 0) (inputAt [] 16) game0 = Some st'
          \<and> wave st' = 1 \<and> enemiesPerWave st' = 5 \<and> enemySpawnRate st' = 2
          \<and> waveBannerTime st' = 0 \<and> enemySpawnTimer st' = 2)"
proof -
  obtain st' where t: "gameLoop (\<lambda>n. 0) (inputAt [] 16) game0 = Some st'"
    using gameLoop_total by blast
  define st0 where "st0 = game0\<lparr>lastTime := currentTime (inputAt [] 16)\<rparr>"
  define dt :: real where "dt = min ((currentTime (inputAt [] 16) - lastTime game0) / 1000) 0.033"
  have dt: "dt = 0.016" by (simp add: dt_def game0_fields inputAt_def)
  from gameLoop_cases [OF t dt_def st0_def]
  have n: "normalTick (\<lambda>n. 0) (inputAt [] 16) dt st0 = Some st'"
    by (simp add: game0_fields)
  have "0 < enemiesPerWave st0" by (simp add: st0_def game0_fields)
  from normalTick_effect(2) [OF n this]
  have "wave st' = 1 \<and> enemiesPerWave st' = 5 \<and> enemySpawnRate st' = 2
          \<and> waveBannerTime st' = 0 \<and> enemySpawnTimer st' = 2"
    by (simp add: st0_def game0_fields dt)
  with t show ?thesis by (auto simp: game0_fields)
qed

section \<open>Hit-stop\<close>

text \<open>
  Claim C4. A tick in the playing, non-paused state with \<open>hitstop > 0\<close> changes nothing but
  the frame clock and the cosmetic timers: \<open>hitstop\<close> falls by \<open>dt\<close>, the shake offset is
  scaled by 0.92, every positive enemy \<open>hitFlash\<close> falls by \<open>dt\<close>, the player's recoil
  falls by \<open>20 dt\<close> down to 0, and every dash afterimage ages by \<open>dt\<close> and loses \<open>2 dt\<close> of
  alpha, those whose alpha is then not positive being dropped. Player, enemy and bullet
  positions, the bullet, enemy and particle populations, score, combo, combo timer, wave
  state and spawn timers stay as they are.
\<close>

theorem hitstop_freezes_gameplay:
  assumes "gameState st = Playing" and "\<not> paused st" and "hitstop st > 0"
    and "dt = min ((currentTime inp - lastTime st) / 1000) 0.033"
  shows "\<exists>st'. gameLoop rand inp st = Some st'
     \<and> st' = st\<lparr>lastTime := currentTime inp,
        hitstop := hitstop st - dt,
        screenShake_x := screenShake_x st * 0.92,
        screenShake_y := screenShake_y st * 0.92,
        enemies := map (\<lambda>enemy. if e_hitFlash enemy > 0
                                  then enemy\<lparr>e_hitFlash := e_hitFlash enemy - dt\<rparr>
                                  else enemy) (enemies st),
        player := (player st)\<lparr>
          recoilOffset := (if recoilOffset (player st) > 0
                           then max 0 (recoilOffset (player st) - dt * 20)
                           else recoilOffset (player st)),
          ghostAfterimages :=
            filter (\<lambda>g. g_alpha g > 0)
              (map (\<lambda>g. g\<lparr>g_age := g_age g + dt, g_alpha := g_alpha g - dt * 2\<rparr>)
                 (ghostAfterimages (player st)))\<rparr>\<rparr>
     \<and> p_x (player st') = p_x (player st) \<and> p_y (player st') = p_y (player st)
     \<and> map e_x (enemies st') = map e_x (enemies st)
     \<and> map e_y (enemies st') = map e_y (enemies st)
     \<and> length (enemies st') = length (enemies st)
     \<and> bullets st' = bullets st \<and> particles st' = particles st
     \<and> score st' = score st \<and> combo st' = combo st \<and> comboTimer st' = comboTimer st
     \<and> wave st' = wave st \<and> enemiesPerWave st' = enemiesPerWave st
     \<and> enemySpawnRate st' = enemySpawnRate st \<and> waveBannerTime st' = waveBannerTime st
     \<and> enemySpawnTimer st' = enemySpawnTimer st \<and> lastShotTime st' = lastShotTime st"
proof -
  have "gameLoop rand inp st = Some (hitstopTick dt (st\<lparr>lastTime := currentTime inp\<rparr>))"
    unfolding gameLoop_def Let_def assms(4) using assms(1-3) by simp
  moreover have "fadeGhost dt = (\<lambda>g. g\<lparr>g_age := g_age g + dt, g_alpha := g_alpha g - dt * 2\<rparr>)"
    by (rule ext) (simp add: fadeGhost_def)
  then have "fadeGhosts dt gs = filter (\<lambda>g. g_alpha g > 0)
              (map (\<lambda>g. g\<lparr>g_age := g_age g + dt, g_alpha := g_alpha g - dt * 2\<rparr>) gs)" for gs
    by (simp add: fadeGhosts_def)
  ultimately have g: "gameLoop rand inp st = Some (st\<lparr>lastTime := currentTime inp,
        hitstop := hitstop st - dt,
        screenShake_x := screenShake_x st * 0.92,
        screenShake_y := screenShake_y st * 0.92,
        enemies := map (\<lambda>enemy. if e_hitFlash enemy > 0
                                  then enemy\<lparr>e_hitFlash := e_hitFlash enemy - dt\<rparr>
                                  else enemy) (enemies st),
        player := (player st)\<lparr>
          recoilOffset := (if recoilOffset (player st) > 0
                           then max 0 (recoilOffset (player st) - dt * 20)
                           else recoilOffset (player st)),
          ghostAfterimages :=
            filter (\<lambda>g. g_alpha g > 0)
              (map (\<lambda>g. g\<lparr>g_age := g_age g + dt, g_alpha := g_alpha g - dt * 2\<rparr>)
                 (ghostAfterimages (player st)))\<rparr>\<rparr>)"
    by (simp add: hitstopTick_eq shakeDecay_def)
  have x: "map e_x (map (\<lambda>enemy. if e_hitFlash enemy > 0
                                  then enemy\<lparr>e_hitFlash := e_hitFlash enemy - dt\<rparr>
                                  else enemy) (enemies st)) = map e_x (enemies st)"
    by (induction "enemies st") auto
  have y: "map e_y (map (\<lambda>enemy. if e_hitFlash enemy > 0
                                  then enemy\<lparr>e_hitFlash := e_hitFlash enemy - dt\<rparr>
                                  else enemy) (enemies st)) = map e_y (enemies st)"
    by (induction "enemies st") auto
  show ?thesis
    unfolding g using x y by simp
qed

lemma stunned_fields:
  "gameState stunned = Playing" "\<not> paused stunned" "lastTime stunned = 0"
  "hitstop stunned = 0.05" "screenShake_x stunned = 10" "screenShake_y stunned = - 5"
  "score stunned = 0" "combo stunned = 0" "wave stunned = 1"
  "bullets stunned = [Bullet_new 0 0 0]"
  "enemies stunned =
     [\<lparr>e_x = 15, e_y = 0, e_radius = 12, e_speed = 80, e_hp = 1, e_hitFlash = 0.1\<rparr>,
      \<lparr>e_x = 200, e_y = 0, e_radius = 12, e_speed = 80, e_hp = 1, e_hitFlash = 0\<rparr>]"
  "player stunned = (Player_new 800 600)\<lparr>recoilOffset := 3,
             ghostAfterimages :=
               [\<lparr>g_x = 380, g_y = 300, g_angle = 0, g_alpha = 0.02, g_age = 0.29\<rparr>,
                \<lparr>g_x = 390, g_y = 300, g_angle = 0, g_alpha = 0.6, g_age = 0\<rparr>]\<rparr>"
  by (simp_all add: stunned_def game0_def initGame_def)

text \<open>
  The theorem on \<open>stunned\<close> and a tick 16 ms after the last: 34 ms of hit-stop are left, the
  shake offset, the hit flash and the recoil have decayed, the older afterimage is gone and
  the other has faded, and bullets, positions and counters are as before.
\<close>

theorem hitstop_freezes_gameplay_witness:
  "\<exists>st'. gameLoop (\<lambda>n. 0) (inputAt [] 16) stunned = Some st'
     \<and> hitstop st' = 0.034 \<and> screenShake_x st' = 9.2 \<and> screenShake_y st' = - 4.6
     \<and> map e_hitFlash (enemies st') = [0.084, 0]
     \<and> recoilOffset (player st') = 2.68
     \<and> ghostAfterimages (player st') =
          [\<lparr>g_x = 390, g_y = 300, g_angle = 0, g_alpha = 0.568, g_age = 0.016\<rparr>]
     \<and> p_x (player st') = 400 \<and> p_y (player st') = 300
     \<and> map e_x (enemies st') = [15, 200]
     \<and> bullets st' = [Bullet_new 0 0 0] \<and> score st' = 0 \<and> combo st' = 0 \<and> wave st' = 1"
proof -
  have h: "hitstop stunned > 0" by (simp add: stunned_fields)
  have dt: "(0.016::real) = min ((currentTime (inputAt [] 16) - lastTime stunned) / 1000) 0.033"
    by (simp add: stunned_fields inputAt_def)
  from hitstop_freezes_gameplay [OF stunned_fields(1,2) h dt, of "\<lambda>n. 0"]
  obtain st' where t: "gameLoop (\<lambda>n. 0) (inputAt [] 16) stunned = Some st'"
    and e: "st' = stunned\<lparr>lastTime := currentTime (inputAt [] 16),
        hitstop := hitstop stunned - 0.016,
        screenShake_x := screenShake_x stunned * 0.92,
        screenShake_y := screenShake_y stunned * 0.92,
        enemies := map (\<lambda>enemy. if e_hitFlash enemy > 0
                                  then enemy\<lparr>e_hitFlash := e_hitFlash enemy - 0.016\<rparr>
                                  else enemy) (enemies stunned),
        player := (player stunned)\<lparr>
          recoilOffset := (if recoilOffset (player stunned) > 0
                           then max 0 (recoilOffset (player stunned) - 0.016 * 20)
                           else recoilOffset (player stunned)),
          ghostAfterimages :=
            filter (\<lambda>g. g_alpha g > 0)
              (map (\<lambda>g. g\<lparr>g_age := g_age g + 0.016, g_alpha := g_alpha g - 0.016 * 2\<rparr>)
                 (ghostAfterimages (player stunned)))\<rparr>\<rparr>"
    by blast
  have "hitstop st' = 0.034 \<and> screenShake_x st' = 9.2 \<and> screenShake_y st' = - 4.6
     \<and> map e_hitFlash (enemies st') = [0.084, 0]
     \<and> recoilOffset (player st') = 2.68
     \<and> ghostAfterimages (player st') =
          [\<lparr>g_x = 390, g_y = 300, g_angle = 0, g_alpha = 0.568, g_age = 0.016\<rparr>]
     \<and> p_x (player st') = 400 \<and> p_y (player st') = 300
     \<and> map e_x (enemies st') = [15, 200]
     \<and> bullets st' = [Bullet_new 0 0 0] \<and> score st' = 0 \<and> combo st' = 0 \<and> wave st' = 1"
    unfolding e by (simp add: stunned_fields Player_new_def)
  with t show ?thesis
    apply -
    apply (rule exI [of _ st'])
    apply simp
    done
qed

section \<open>Shooting\<close>

text \<open>
  The shooting step with fire held: it shoots when the time since the last shot, computed
  in doubles, has reached the cooldown, and otherwise changes nothing.
\<close>

lemma shooting_step:
  assumes "mouse_down inp \<or> keys inp '' ''"
  shows "lastShotTime (shooting rand inp st) =
           (if shootCooldown \<le> dbl (dbl (currentTime inp / 1000) - lastShotTime st)
            then dbl (currentTime inp / 1000) else lastShotTime st)"
    and "length (bullets (shooting rand inp st)) =
           (if shootCooldown \<le> dbl (dbl (currentTime inp / 1000) - lastShotTime st)
            then Suc (length (bullets st)) else length (bullets st))"
  using assms by (simp_all add: shooting_def playSound_eq Let_def)

lemma shooting_waits:
  assumes "dbl (dbl (currentTime inp / 1000) - lastShotTime st) < shootCooldown"
  shows "shooting rand inp st = st"
  using assms by (simp add: shooting_def Let_def)

lemma heldTicks_Suc:
  "heldTicks t0 (Suc n) = heldTicks t0 n @ [inputAt ['' ''] (t0 + 150 * real n)]"
  by (simp add: heldTicks_def)

lemma shootingRun_snoc:
  "shootingRun rand (inps @ [inp]) st = shooting rand inp (shootingRun rand inps st)"
  by (simp add: shootingRun_def)

lemma heldTicks_7:
  "heldTicks t0 7 = map (\<lambda>t. inputAt ['' ''] (t0 + t)) [0, 150, 300, 450, 600, 750, 900]"
proof -
  have "[0..<7] = [0, 1, 2, 3, 4, 5, 6]" by (simp add: upt_rec)
  then show ?thesis by (simp add: heldTicks_def)
qed

lemma shooting_held:
  "lastShotTime (shooting rand (inputAt ['' ''] t) st) =
           (if shootCooldown \<le> dbl (dbl (t / 1000) - lastShotTime st)
            then dbl (t / 1000) else lastShotTime st)"
  "length (bullets (shooting rand (inputAt ['' ''] t) st)) =
           (if shootCooldown \<le> dbl (dbl (t / 1000) - lastShotTime st)
            then Suc (length (bullets st)) else length (bullets st))"
  using shooting_step [of "inputAt ['' ''] t" rand st] by (simp_all add: inputAt_def)

lemma shootCooldown_value: "shootCooldown = 5404319552844595 / 36028797018963968"
  by (simp add: shootCooldown_def dbl_eval)

lemma upt_8: "[0..<8] = [0, 1, 2, 3, 4, 5, 6, 7]"
  by (simp add: upt_rec)

lemma heldTicks_from_0:
  assumes "lastShotTime st = 0"
  shows "map (\<lambda>n. length (bullets (shootingRun rand (heldTicks 0 n) st))) [0..<8] =
           map (\<lambda>k. length (bullets st) + k) [0, 0, 1, 2, 3, 3, 4, 5]"
  unfolding upt_8
  by (simp add: heldTicks_def shootingRun_def upt_rec shooting_held assms shootCooldown_value dbl_eval)

lemma heldTicks_from_1000:
  assumes "lastShotTime st = 0"
  shows "map (\<lambda>n. length (bullets (shootingRun rand (heldTicks 1000 n) st))) [0..<8] =
           map (\<lambda>k. length (bullets st) + k) [0, 1, 1, 2, 2, 3, 3, 4]"
  unfolding upt_8
  by (simp add: heldTicks_def shootingRun_def upt_rec shooting_held assms shootCooldown_value dbl_eval)

lemma heldTicks_from_150:
  assumes "lastShotTime st = 0"
  shows "map (\<lambda>n. length (bullets (shootingRun rand (heldTicks 150 n) st))) [0..<8] =
           map (\<lambda>k. length (bullets st) + k) [0, 1, 2, 3, 3, 4, 5, 6]"
  unfolding upt_8
  by (simp add: heldTicks_def shootingRun_def upt_rec shooting_held assms shootCooldown_value dbl_eval)

text \<open>
  Claim C8, amended. Fire is held over the seven ticks \<open>t = 0, 0.15, \<dots>, 0.90\<close> from the start
  of firing, the cooldown is the double 0.15 and no shot was fired before
  (\<open>lastShotTime = 0\<close>). The comparison \<^verbatim>\<open>now - lastShotTime >= shootCooldown\<close> is made in
  doubles, where a difference of two time stamps 0.15 s apart can fall below the double 0.15,
  so the number of bullets depends on the clock at the start of firing. From clock 0 (a fresh
  game) 5 bullets are spawned, at \<open>t = 0.15, 0.30, 0.45, 0.75, 0.90\<close>: none at \<open>t = 0\<close>, where no
  time has passed since \<open>lastShotTime\<close>, and none at \<open>t = 0.60\<close>. From clock 1 s, 4 bullets are
  spawned, at \<open>t = 0, 0.30, 0.60, 0.90\<close>. From clock 0.15 s, 6 bullets are spawned, at
  \<open>t = 0, 0.15, 0.30, 0.60, 0.75, 0.90\<close>. The lists give the number of bullets added after
  \<open>0, 1, \<dots>, 7\<close> ticks.
\<close>

theorem held_fire_bullets:
  assumes "lastShotTime st = 0"
  shows "heldTicks t0 7 = map (\<lambda>t. inputAt ['' ''] (t0 + t)) [0, 150, 300, 450, 600, 750, 900]
     \<and> map (\<lambda>n. length (bullets (shootingRun rand (heldTicks 0 n) st))) [0..<8] =
         map (\<lambda>k. length (bullets st) + k) [0, 0, 1, 2, 3, 3, 4, 5]
     \<and> map (\<lambda>n. length (bullets (shootingRun rand (heldTicks 1000 n) st))) [0..<8] =
         map (\<lambda>k. length (bullets st) + k) [0, 1, 1, 2, 2, 3, 3, 4]
     \<and> map (\<lambda>n. length (bullets (shootingRun rand (heldTicks 150 n) st))) [0..<8] =
         map (\<lambda>k. length (bullets st) + k) [0, 1, 2, 3, 3, 4, 5, 6]"
  using heldTicks_7 [of t0] heldTicks_from_0 [OF assms, of rand]
    heldTicks_from_1000 [OF assms, of rand] heldTicks_from_150 [OF assms, of rand]
  by blast

text \<open>The theorem on a fresh game.\<close>

theorem held_fire_bullets_witness:
  "map (\<lambda>n. length (bullets (shootingRun (\<lambda>n. 0) (heldTicks 0 n) game0))) [0..<8] =
         [0, 0, 1, 2, 3, 3, 4, 5]
   \<and> map (\<lambda>n. length (bullets (shootingRun (\<lambda>n. 0) (heldTicks 1000 n) game0))) [0..<8] =
         [0, 1, 1, 2, 2, 3, 3, 4]
   \<and> map (\<lambda>n. length (bullets (shootingRun (\<lambda>n. 0) (heldTicks 150 n) game0))) [0..<8] =
         [0, 1, 2, 3, 3, 4, 5, 6]"
proof -
  have h: "lastShotTime game0 = 0" by (simp add: game0_fields)
  have b: "length (bullets game0) = 0" by (simp add: game0_fields)
  from held_fire_bullets [OF h, of 0 "\<lambda>n. 0"] show ?thesis
    unfolding b by simp
qed

text \<open>
  Claim C8, as stated: exactly 6 bullets, with shots at the ticks \<open>t = 0, 0.15, \<dots>, 0.90\<close>.
  On a fresh game with fire held at the time stamps 0, 150, \<dots>, 900 the code spawns 5
  bullets, none of them at the first tick; at the time stamps 1000, 1150, \<dots>, 1900 it
  spawns 4.
\<close>

theorem held_fire_six_bullets_counterexample:
  "length (bullets (shootingRun (\<lambda>n. 0)
      (map (\<lambda>t. inputAt ['' ''] (0 + t)) [0, 150, 300, 450, 600, 750, 900]) game0)) = 5
   \<and> bullets (shootingRun (\<lambda>n. 0) [inputAt ['' ''] 0] game0) = []
   \<and> length (bullets (shootingRun (\<lambda>n. 0)
      (map (\<lambda>t. inputAt ['' ''] (1000 + t)) [0, 150, 300, 450, 600, 750, 900]) game0)) = 4"
proof -
  have h: "lastShotTime game0 = 0" by (simp add: game0_fields)
  have b: "length (bullets game0) = 0" by (simp add: game0_fields)
  have a: "length (bullets (shootingRun (\<lambda>n. 0) (heldTicks 0 7) game0)) = 5"
    and c: "length (bullets (shootingRun (\<lambda>n. 0) (heldTicks 0 1) game0)) = 0"
    using heldTicks_from_0 [OF h, of "\<lambda>n. 0"] unfolding b upt_8 by simp_all
  have d: "length (bullets (shootingRun (\<lambda>n. 0) (heldTicks 1000 7) game0)) = 4"
    using heldTicks_from_1000 [OF h, of "\<lambda>n. 0"] unfolding b upt_8 by simp
  have e: "heldTicks 0 1 = [inputAt ['' ''] 0]" by (simp add: heldTicks_def)
  from a c d show ?thesis
    unfolding heldTicks_7 e by simp
qed

end
